theory Spec2Isabelle
  imports Complex_Main "HOL-Library.AList"
begin

section \<open>Python values\<close>

text \<open>
  The engine moves \<open>Dict[str, Any]\<close> values around. \<open>Any\<close> is modelled by the JSON-like
  values a request body can carry. A dict is an association list: \<open>AList.update\<close> replaces the
  value of a key that is present and appends a new key at the end, as a Python dict does.
\<close>

datatype jv =
    JNone
  | JBool bool
  | JInt int
  | JFloat real
  | JStr string
  | JList "jv list"
  | JDict "(string \<times> jv) list"

type_synonym jdict = "(string \<times> jv) list"

text \<open>\<open>d.get(k, default)\<close>\<close>

definition dict_get :: "jdict \<Rightarrow> string \<Rightarrow> jv \<Rightarrow> jv" where
  "dict_get d k dflt = (case map_of d k of None \<Rightarrow> dflt | Some v \<Rightarrow> v)"

text \<open>\<open>d.update(other)\<close>: the items of \<open>other\<close> are stored into \<open>d\<close> one after the other.\<close>

definition dict_update :: "jdict \<Rightarrow> jdict \<Rightarrow> jdict" where
  "dict_update d other = fold (\<lambda>(k, v). AList.update k v) other d"

text \<open>
  The exceptions the engine can meet. The record keeps \<open>str(e)\<close>: the message for every
  exception but \<open>KeyError\<close>, whose \<open>str\<close> is the \<open>repr\<close> of the missing key.
\<close>

datatype err =
    KeyError string
  | TypeError string
  | AttributeError string
  | UnboundLocalError string
  | Exception string

text \<open>
  What the model takes from the Python runtime without computing it: \<open>utcnow py k\<close> is the
  value of the \<open>k\<close>-th call of \<open>datetime.utcnow()\<close> in the process, \<open>isoformat\<close> renders a
  datetime, \<open>repr\<close> is \<open>repr\<close> on strings.
\<close>

record pyenv =
  utcnow :: "nat \<Rightarrow> nat"
  isoformat :: "nat \<Rightarrow> string"
  repr :: "string \<Rightarrow> string"

fun str_err :: "pyenv \<Rightarrow> err \<Rightarrow> string" where
  "str_err py (KeyError k) = repr py k"
| "str_err py (TypeError m) = m"
| "str_err py (AttributeError m) = m"
| "str_err py (UnboundLocalError m) = m"
| "str_err py (Exception m) = m"

text \<open>\<open>len(v)\<close>: only strings, lists and dicts have a length.\<close>

fun py_len :: "jv \<Rightarrow> err + nat" where
  "py_len (JStr s) = Inr (length s)"
| "py_len (JList xs) = Inr (length xs)"
| "py_len (JDict d) = Inr (length d)"
| "py_len JNone = Inl (TypeError ''object of type 'NoneType' has no len()'')"
| "py_len (JBool b) = Inl (TypeError ''object of type 'bool' has no len()'')"
| "py_len (JInt i) = Inl (TypeError ''object of type 'int' has no len()'')"
| "py_len (JFloat x) = Inl (TypeError ''object of type 'float' has no len()'')"

section \<open>Data model (models.py)\<close>

text \<open>
  The models, field by field. Some names of the source are taken in Isabelle: \<open>id\<close> and
  \<open>type\<close> of a node are \<open>node_id\<close> and \<open>node_type\<close>, the fields of a workflow carry the
  prefix \<open>wf\<close>, and \<open>id\<close> and \<open>output\<close> of an execution are \<open>exec_id\<close> and
  \<open>exec_output\<close>. A datetime is a natural number.
\<close>

record WorkflowNode =
  node_id :: string
  node_type :: string
  config :: jdict

record WorkflowEdge =
  from_node :: string
  to_node :: string
  condition :: "string option"

record WorkflowDefinition =
  nodes :: "WorkflowNode list"
  edges :: "WorkflowEdge list"

record Workflow =
  wf_id :: string
  wf_name :: string
  wf_description :: "string option"
  wf_definition :: WorkflowDefinition
  is_active :: bool
  schedule :: "string option"
  created_by :: "string option"
  created_at :: "nat option"
  updated_at :: "nat option"

datatype ExecutionStatus = PENDING | RUNNING | SUCCESS | FAILED | CANCELLED

text \<open>
  The dict stored in \<open>execution.output\<close> on success. \<open>list(completed_nodes)\<close> lists a set
  in no specified order, so the set itself is kept.
\<close>

record ExecutionOutput =
  out_node_outputs :: "(string \<times> jdict) list"
  out_completed_nodes :: "string set"
  execution_summary :: string

record Execution =
  exec_id :: string
  workflow_id :: string
  status :: ExecutionStatus
  input :: "jdict option"
  exec_output :: "ExecutionOutput option"
  error :: "string option"
  started_at :: "nat option"
  completed_at :: "nat option"
  executed_by :: "string option"

section \<open>Node executors (workflow_engine.py)\<close>

text \<open>
  An executor gets the node, the node's input and the value \<open>datetime.utcnow()\<close> has during
  the call; it returns the output dict or raises. Every built-in executor reads the clock
  once, as the last step before it returns its output, so a call that returns counts as one
  reading of the clock and a call that raises as none.
\<close>

type_synonym executor = "WorkflowNode \<Rightarrow> jdict \<Rightarrow> nat \<Rightarrow> err + jdict"

definition TriggerExecutor :: "pyenv \<Rightarrow> executor" where
  "TriggerExecutor py node input_data t =
     (let trigger_type = dict_get (config node) ''type'' (JStr ''manual'') in
      if trigger_type = JStr ''schedule'' then
        Inr [(''trigger_type'', JStr ''schedule''),
             (''triggered_at'', JStr (isoformat py t)),
             (''cron'', dict_get (config node) ''cron'' JNone)]
      else if trigger_type = JStr ''webhook'' then
        Inr [(''trigger_type'', JStr ''webhook''),
             (''triggered_at'', JStr (isoformat py t)),
             (''payload'', dict_get input_data ''webhook_payload'' (JDict []))]
      else
        Inr [(''trigger_type'', JStr ''manual''),
             (''triggered_at'', JStr (isoformat py t)),
             (''user_input'', JDict input_data)])"

definition ConnectorExecutor :: "pyenv \<Rightarrow> executor" where
  "ConnectorExecutor py node input_data t =
     (let connector_id = dict_get (config node) ''connector_id'' JNone;
          action = dict_get (config node) ''action'' (JStr ''fetch'')
      in Inr [(''connector_id'', connector_id),
              (''action'', action),
              (''result'', JDict
                 [(''records_fetched'', JInt 15),
                  (''data'', JList (map (\<lambda>i. JDict [(''id'', JInt (int i)),
                                                       (''amount'', JInt (1000 + int i * 100))])
                                       [0..<15]))]),
              (''executed_at'', JStr (isoformat py t))])"

definition AgentExecutor :: "pyenv \<Rightarrow> executor" where
  "AgentExecutor py node input_data t =
     (let agent_id = dict_get (config node) ''agent_id'' JNone in
      case py_len (dict_get input_data ''data'' (JList [])) of
        Inl e \<Rightarrow> Inl e
      | Inr total_items \<Rightarrow>
          Inr [(''agent_id'', agent_id),
               (''processed_data'', JDict input_data),
               (''analysis'', JDict
                  [(''total_items'', JInt (int total_items)),
                   (''categorized'', JBool True),
                   (''anomalies_found'', JInt 2)]),
               (''executed_at'', JStr (isoformat py t))])"

definition ActionExecutor :: "pyenv \<Rightarrow> executor" where
  "ActionExecutor py node input_data t =
     (let action_type = dict_get (config node) ''type'' (JStr ''email'') in
      if action_type = JStr ''email'' then
        (let recipient = dict_get (config node) ''recipient'' JNone;
             subject = dict_get (config node) ''subject'' (JStr ''Workflow Result'')
         in Inr [(''action_type'', JStr ''email''),
                 (''recipient'', recipient),
                 (''subject'', subject),
                 (''sent'', JBool True),
                 (''sent_at'', JStr (isoformat py t))])
      else
        Inr [(''action_type'', action_type),
             (''result'', JStr ''Action executed successfully''),
             (''executed_at'', JStr (isoformat py t))])"

definition ConditionExecutor :: "pyenv \<Rightarrow> executor" where
  "ConditionExecutor py node input_data t =
     (let condition = dict_get (config node) ''condition'' (JStr ''true'');
          result = True
      in Inr [(''condition'', condition),
              (''result'', JBool result),
              (''evaluated_at'', JStr (isoformat py t))])"

section \<open>The engine\<close>

text \<open>One entry of \<open>running_executions\<close>.\<close>

record ExecutionState =
  execution :: Execution
  workflow :: Workflow
  state_current_node :: "string option"
  state_node_outputs :: "(string \<times> jdict) list"
  state_completed_nodes :: "string set"

text \<open>
  The engine object, with what the process holds beside it: \<open>tasks\<close> lists the background
  tasks handed to \<open>asyncio.create_task\<close>, \<open>ticks\<close> counts the calls of
  \<open>datetime.utcnow()\<close> so far, and \<open>calls\<close> logs every call of an executor's \<open>execute\<close>
  (node id and input), in order.
\<close>

record WorkflowEngine =
  executors :: "string \<rightharpoonup> executor"
  running_executions :: "string \<rightharpoonup> ExecutionState"
  tasks :: "string list"
  ticks :: nat
  calls :: "(string \<times> jdict) list"

text \<open>\<open>WorkflowEngine.__init__\<close>\<close>

definition builtin_executors :: "pyenv \<Rightarrow> (string \<rightharpoonup> executor)" where
  "builtin_executors py =
     [''trigger'' \<mapsto> TriggerExecutor py,
      ''connector'' \<mapsto> ConnectorExecutor py,
      ''agent'' \<mapsto> AgentExecutor py,
      ''action'' \<mapsto> ActionExecutor py,
      ''condition'' \<mapsto> ConditionExecutor py]"

definition new_engine :: "pyenv \<Rightarrow> nat \<Rightarrow> WorkflowEngine" where
  "new_engine py k =
     \<lparr>executors = builtin_executors py, running_executions = Map.empty,
      tasks = [], ticks = k, calls = []\<rparr>"

text \<open>
  \<open>execute_workflow\<close>. The fresh \<open>uuid4\<close> string is an argument. Nothing is checked: the
  record is stored with status RUNNING and the background task is created.
\<close>

definition execute_workflow ::
  "pyenv \<Rightarrow> WorkflowEngine \<Rightarrow> Workflow \<Rightarrow> jdict \<Rightarrow> string \<Rightarrow> string \<times> WorkflowEngine" where
  "execute_workflow py eng wfl input_data execution_id =
     (let execn = \<lparr>exec_id = execution_id, workflow_id = wf_id wfl, status = RUNNING,
                   input = Some input_data, exec_output = None, error = None,
                   started_at = Some (utcnow py (ticks eng)), completed_at = None,
                   executed_by = None\<rparr>;
          st = \<lparr>execution = execn, workflow = wfl, state_current_node = None,
                state_node_outputs = [], state_completed_nodes = {}\<rparr>
      in (execution_id,
          eng\<lparr>running_executions := (running_executions eng)(execution_id \<mapsto> st),
              tasks := tasks eng @ [execution_id],
              ticks := Suc (ticks eng)\<rparr>))"

subsection \<open>The graph tables built by the background task\<close>

definition nodes_by_id :: "WorkflowNode list \<Rightarrow> (string \<rightharpoonup> WorkflowNode)" where
  "nodes_by_id ns = fold (\<lambda>node m. m(node_id node \<mapsto> node)) ns Map.empty"

definition edges_by_from :: "WorkflowEdge list \<Rightarrow> (string \<rightharpoonup> WorkflowEdge list)" where
  "edges_by_from es =
     fold (\<lambda>edge m. m(from_node edge \<mapsto>
              (case m (from_node edge) of None \<Rightarrow> [] | Some l \<Rightarrow> l) @ [edge])) es Map.empty"

definition incoming_edges :: "WorkflowDefinition \<Rightarrow> string set" where
  "incoming_edges d = set (map to_node (edges d))"

definition entry_nodes :: "WorkflowDefinition \<Rightarrow> string list" where
  "entry_nodes d = [node_id node. node \<leftarrow> nodes d, node_id node \<notin> incoming_edges d]"

definition dependencies :: "WorkflowDefinition \<Rightarrow> string \<Rightarrow> string list" where
  "dependencies d current_node_id =
     [from_node edge. edge \<leftarrow> edges d, to_node edge = current_node_id]"

text \<open>
  The node's input: a copy of the execution's input, updated with the output of each
  dependency that has one, in the order of \<open>dependencies\<close>.
\<close>

definition node_input_of :: "jdict \<Rightarrow> string list \<Rightarrow> (string \<times> jdict) list \<Rightarrow> jdict" where
  "node_input_of inp deps outs =
     fold (\<lambda>dep acc. case map_of outs dep of None \<Rightarrow> acc | Some out \<Rightarrow> dict_update acc out)
          deps inp"

subsection \<open>The scheduling loop\<close>

text \<open>
  The local variables of \<open>_execute_workflow_async\<close> during the loop, with the fields of the
  process the loop writes (\<open>current_node\<close> of the stored state, the clock count, the call
  log: \<open>ncalls\<close> lists the calls of \<open>execute\<close> made by this run).
\<close>

record LoopState =
  execution_queue :: "string list"
  completed_nodes :: "string set"
  node_outputs :: "(string \<times> jdict) list"
  current_node :: "string option"
  nticks :: nat
  ncalls :: "(string \<times> jdict) list"

text \<open>
  One iteration of \<open>while execution_queue\<close>, for a non-empty queue. The result is the
  exception raised, if any, and the state reached.
\<close>

definition loop_body ::
  "pyenv \<Rightarrow> (string \<rightharpoonup> executor) \<Rightarrow> WorkflowDefinition \<Rightarrow> jdict option \<Rightarrow> LoopState
     \<Rightarrow> err option \<times> LoopState" where
  "loop_body py exs d exec_input s =
     (case execution_queue s of
        [] \<Rightarrow> (None, s)
      | current_node_id # rest \<Rightarrow>
          if current_node_id \<in> completed_nodes s then (None, s\<lparr>execution_queue := rest\<rparr>)
          else if \<not> list_all (\<lambda>dep. dep \<in> completed_nodes s) (dependencies d current_node_id)
          then (None, s\<lparr>execution_queue := rest @ [current_node_id]\<rparr>)
          else
            (case nodes_by_id (nodes d) current_node_id of
               None \<Rightarrow> (Some (KeyError current_node_id), s\<lparr>execution_queue := rest\<rparr>)
             | Some node \<Rightarrow>
                 (let s1 = s\<lparr>execution_queue := rest, current_node := Some current_node_id\<rparr> in
                  case exec_input of
                    None \<Rightarrow>
                      (Some (AttributeError
                             (CHR 0x27 # ''NoneType' object has no attribute 'copy'' @ [CHR 0x27])), s1)
                  | Some inp \<Rightarrow>
                      (let node_input =
                             node_input_of inp (dependencies d current_node_id) (node_outputs s)
                       in case exs (node_type node) of
                            None \<Rightarrow>
                              (Some (Exception (''No executor found for node type: '' @ node_type node)),
                               s1)
                          | Some executor \<Rightarrow>
                              (let s2 = s1\<lparr>ncalls := ncalls s @ [(current_node_id, node_input)]\<rparr>
                               in case executor node node_input (utcnow py (nticks s)) of
                                    Inl e \<Rightarrow> (Some e, s2)
                                  | Inr out \<Rightarrow>
                                      (None,
                                       s2\<lparr>nticks := Suc (nticks s),
                                          node_outputs := AList.update current_node_id out (node_outputs s),
                                          completed_nodes := insert current_node_id (completed_nodes s),
                                          execution_queue :=
                                            rest @ (case edges_by_from (edges d) current_node_id of
                                                      None \<Rightarrow> []
                                                    | Some es \<Rightarrow> map to_node es)\<rparr>))))))"

text \<open>
  The state at the start of the loop: the queue holds the entry nodes, nothing is completed,
  there is no output yet.
\<close>

definition init_loop :: "WorkflowDefinition \<Rightarrow> string option \<Rightarrow> nat \<Rightarrow> LoopState" where
  "init_loop d cur k =
     \<lparr>execution_queue = entry_nodes d, completed_nodes = {}, node_outputs = [],
      current_node = cur, nticks = k, ncalls = []\<rparr>"

text \<open>
  The loop. It may run forever (a node waiting for a dependency that never completes is
  put back into the queue each time), so it is a partial function: \<open>None\<close> is the loop
  that does not end.
\<close>

partial_function (option) while_queue ::
  "pyenv \<Rightarrow> (string \<rightharpoonup> executor) \<Rightarrow> WorkflowDefinition \<Rightarrow> jdict option \<Rightarrow> LoopState
     \<Rightarrow> (err option \<times> LoopState) option" where
  "while_queue py exs d exec_input s =
     (if execution_queue s = [] then Some (None, s)
      else (case loop_body py exs d exec_input s of
              (None, s') \<Rightarrow> while_queue py exs d exec_input s'
            | (Some e, s') \<Rightarrow> Some (Some e, s')))"

text \<open>
  \<open>_execute_workflow_async\<close>. With an unknown id the lookup raises, the handler and the
  \<open>finally\<close> block meet unbound locals, and the exception leaves the task; the engine is
  as before. Otherwise the loop runs and the task writes SUCCESS, or FAILED with
  \<open>str(e)\<close>, whatever the status of the record is by then.
\<close>

definition execute_workflow_async ::
  "pyenv \<Rightarrow> WorkflowEngine \<Rightarrow> string \<Rightarrow> (err + WorkflowEngine) option" where
  "execute_workflow_async py eng execution_id =
     (case running_executions eng execution_id of
        None \<Rightarrow> Some (Inl (UnboundLocalError ''execution''))
      | Some st \<Rightarrow>
          (case while_queue py (executors eng) (wf_definition (workflow st))
                  (input (execution st))
                  (init_loop (wf_definition (workflow st)) (state_current_node st) (ticks eng)) of
             None \<Rightarrow> None
           | Some (None, s) \<Rightarrow>
               Some (Inr (eng
                 \<lparr>running_executions := (running_executions eng)(execution_id \<mapsto>
                    st\<lparr>execution := (execution st)
                          \<lparr>status := SUCCESS,
                           exec_output := Some
                             \<lparr>out_node_outputs = node_outputs s,
                              out_completed_nodes = completed_nodes s,
                              execution_summary = ''Workflow completed successfully''\<rparr>,
                           completed_at := Some (utcnow py (nticks s))\<rparr>,
                       state_current_node := current_node s\<rparr>),
                  ticks := Suc (nticks s),
                  calls := calls eng @ ncalls s\<rparr>))
           | Some (Some e, s) \<Rightarrow>
               Some (Inr (eng
                 \<lparr>running_executions := (running_executions eng)(execution_id \<mapsto>
                    st\<lparr>execution := (execution st)
                          \<lparr>status := FAILED,
                           error := Some (str_err py e),
                           completed_at := Some (utcnow py (nticks s))\<rparr>,
                       state_current_node := current_node s\<rparr>),
                  ticks := Suc (nticks s),
                  calls := calls eng @ ncalls s\<rparr>))))"

text \<open>\<open>cancel_execution\<close>\<close>

definition cancel_execution ::
  "pyenv \<Rightarrow> WorkflowEngine \<Rightarrow> string \<Rightarrow> bool \<times> WorkflowEngine" where
  "cancel_execution py eng execution_id =
     (case running_executions eng execution_id of
        None \<Rightarrow> (False, eng)
      | Some st \<Rightarrow>
          if status (execution st) \<in> {SUCCESS, FAILED, CANCELLED} then (False, eng)
          else
            (True,
             eng\<lparr>running_executions := (running_executions eng)(execution_id \<mapsto>
                   st\<lparr>execution := (execution st)
                         \<lparr>status := CANCELLED,
                          completed_at := Some (utcnow py (ticks eng)),
                          error := Some ''Execution cancelled by user''\<rparr>\<rparr>),
                 ticks := Suc (ticks eng)\<rparr>))"

text \<open>
  \<open>get_execution_status\<close>: the report built from the stored state. The list of the
  completed nodes is kept as the set it is made from.
\<close>

record StatusReport =
  report_execution_id :: string
  report_status :: ExecutionStatus
  report_current_node :: "string option"
  report_completed_nodes :: "string set"
  report_started_at :: "string option"
  report_completed_at :: "string option"
  report_error :: "string option"

definition get_execution_status ::
  "pyenv \<Rightarrow> WorkflowEngine \<Rightarrow> string \<Rightarrow> string + StatusReport" where
  "get_execution_status py eng execution_id =
     (case running_executions eng execution_id of
        None \<Rightarrow> Inl ''Execution not found''
      | Some st \<Rightarrow>
          Inr \<lparr>report_execution_id = execution_id,
               report_status = status (execution st),
               report_current_node = state_current_node st,
               report_completed_nodes = state_completed_nodes st,
               report_started_at = map_option (isoformat py) (started_at (execution st)),
               report_completed_at = map_option (isoformat py) (completed_at (execution st)),
               report_error = error (execution st)\<rparr>)"

section \<open>The cancel route (routes/executions.py)\<close>

datatype http_error = HTTPException nat string

text \<open>
  \<open>cancel_execution\<close> of the router, on the table \<open>executions_db\<close>; \<open>t\<close> is the value of
  \<open>datetime.utcnow()\<close> in the call.
\<close>

definition route_cancel_execution ::
  "(string \<rightharpoonup> Execution) \<Rightarrow> string \<Rightarrow> nat \<Rightarrow> (http_error + jdict) \<times> (string \<rightharpoonup> Execution)" where
  "route_cancel_execution executions_db execution_id t =
     (case executions_db execution_id of
        None \<Rightarrow> (Inl (HTTPException 404 ''Execution not found''), executions_db)
      | Some execn \<Rightarrow>
          if status execn \<notin> {PENDING, RUNNING} then
            (Inl (HTTPException 400 ''Cannot cancel execution that is not pending or running''),
             executions_db)
          else
            (Inr [(''execution_id'', JStr execution_id),
                  (''status'', JStr ''cancelled''),
                  (''message'', JStr ''Execution cancelled successfully'')],
             executions_db(execution_id \<mapsto>
               execn\<lparr>status := CANCELLED, completed_at := Some t,
                     error := Some ''Execution cancelled by user''\<rparr>)))"

section \<open>Observers and concrete workflows\<close>

definition get_execution :: "WorkflowEngine \<Rightarrow> string \<Rightarrow> Execution option" where
  "get_execution eng execution_id = map_option execution (running_executions eng execution_id)"

text \<open>The engine after the background task of an execution has run to its end.\<close>

definition engine_after_task :: "pyenv \<Rightarrow> WorkflowEngine \<Rightarrow> string \<Rightarrow> WorkflowEngine option" where
  "engine_after_task py eng execution_id =
     (case execute_workflow_async py eng execution_id of
        Some (Inr eng') \<Rightarrow> Some eng'
      | _ \<Rightarrow> None)"

definition record_after_task :: "pyenv \<Rightarrow> WorkflowEngine \<Rightarrow> string \<Rightarrow> Execution option" where
  "record_after_task py eng execution_id =
     (case engine_after_task py eng execution_id of
        Some eng' \<Rightarrow> get_execution eng' execution_id
      | None \<Rightarrow> None)"

text \<open>The pairs (source, target) of the edges: the directed graph of a definition.\<close>

definition edge_rel :: "WorkflowDefinition \<Rightarrow> (string \<times> string) set" where
  "edge_rel d = set (map (\<lambda>edge. (from_node edge, to_node edge)) (edges d))"

text \<open>A runtime for the concrete runs below.\<close>

definition test_py :: pyenv where
  "test_py = \<lparr>utcnow = (\<lambda>k. 1000 + k), isoformat = (\<lambda>t. ''2024-01-01T00:00:00''),
              repr = (\<lambda>s. CHR 0x27 # s @ [CHR 0x27])\<rparr>"

definition mk_workflow :: "WorkflowDefinition \<Rightarrow> Workflow" where
  "mk_workflow d =
     \<lparr>wf_id = ''w1'', wf_name = ''w'', wf_description = None, wf_definition = d,
      is_active = True, schedule = None, created_by = None, created_at = None,
      updated_at = None\<rparr>"

definition mk_node :: "string \<Rightarrow> string \<Rightarrow> jdict \<Rightarrow> WorkflowNode" where
  "mk_node i ty c = \<lparr>node_id = i, node_type = ty, config = c\<rparr>"

definition mk_edge :: "string \<Rightarrow> string \<Rightarrow> WorkflowEdge" where
  "mk_edge a b = \<lparr>from_node = a, to_node = b, condition = None\<rparr>"

text \<open>Two nodes that depend on each other.\<close>

definition cyclic_definition :: WorkflowDefinition where
  "cyclic_definition =
     \<lparr>nodes = [mk_node ''a'' ''trigger'' [], mk_node ''b'' ''action'' []],
      edges = [mk_edge ''a'' ''b'', mk_edge ''b'' ''a'']\<rparr>"

text \<open>A trigger \<open>a\<close> that leads into the cycle of \<open>b\<close> and \<open>c\<close>.\<close>

definition looping_definition :: WorkflowDefinition where
  "looping_definition =
     \<lparr>nodes = [mk_node ''a'' ''trigger'' [], mk_node ''b'' ''action'' [],
               mk_node ''c'' ''action'' []],
      edges = [mk_edge ''a'' ''b'', mk_edge ''b'' ''c'', mk_edge ''c'' ''b'']\<rparr>"

text \<open>A single trigger node.\<close>

definition single_definition :: WorkflowDefinition where
  "single_definition = \<lparr>nodes = [mk_node ''t'' ''trigger'' []], edges = []\<rparr>"

text \<open>The chain trigger, connector, agent, action, with any configs.\<close>

definition chain_definition :: "jdict \<Rightarrow> jdict \<Rightarrow> jdict \<Rightarrow> jdict \<Rightarrow> WorkflowDefinition" where
  "chain_definition ct cc ca cx =
     \<lparr>nodes = [mk_node ''trigger'' ''trigger'' ct, mk_node ''connector'' ''connector'' cc,
               mk_node ''agent'' ''agent'' ca, mk_node ''action'' ''action'' cx],
      edges = [mk_edge ''trigger'' ''connector'', mk_edge ''connector'' ''agent'',
               mk_edge ''agent'' ''action'']\<rparr>"

text \<open>An agent executor whose collaborator is down.\<close>

definition failing_agent :: executor where
  "failing_agent node input_data t = Inl (Exception ''LLM unavailable'')"

text \<open>
  Two triggers \<open>A\<close> (schedule) and \<open>B\<close> (webhook) feeding an action \<open>C\<close>; both outputs have
  the key \<open>trigger_type\<close>. The edges into \<open>C\<close> are given in the order of the argument.
\<close>

definition join_definition :: "string list \<Rightarrow> WorkflowDefinition" where
  "join_definition preds =
     \<lparr>nodes = [mk_node ''A'' ''trigger'' [(''type'', JStr ''schedule'')],
               mk_node ''B'' ''trigger'' [(''type'', JStr ''webhook'')],
               mk_node ''C'' ''action'' []],
      edges = map (\<lambda>p. mk_edge p ''C'') preds\<rparr>"

text \<open>
  A condition node whose expression is \<open>false\<close>, with one outgoing edge, guarded by
  \<open>false\<close> as well, to an action node.
\<close>

definition condition_definition :: WorkflowDefinition where
  "condition_definition =
     \<lparr>nodes = [mk_node ''check'' ''condition'' [(''condition'', JStr ''false'')],
               mk_node ''after'' ''action'' []],
      edges = [\<lparr>from_node = ''check'', to_node = ''after'', condition = Some ''false''\<rparr>]\<rparr>"

text \<open>A single agent node.\<close>

definition agent_definition :: WorkflowDefinition where
  "agent_definition = \<lparr>nodes = [mk_node ''agent'' ''agent'' []], edges = []\<rparr>"

text \<open>The calls of \<open>execute\<close> logged after the background task, as node ids.\<close>

definition called_after_task :: "pyenv \<Rightarrow> WorkflowEngine \<Rightarrow> string \<Rightarrow> string list option" where
  "called_after_task py eng execution_id =
     map_option (map fst \<circ> calls) (engine_after_task py eng execution_id)"

text \<open>An engine with one execution of the single-node workflow, just submitted.\<close>

definition submitted_engine :: WorkflowEngine where
  "submitted_engine =
     snd (execute_workflow test_py (new_engine test_py 0) (mk_workflow single_definition) [] ''e1'')"

text \<open>The value under a key of the input passed to a node's executor, after the task.\<close>

definition passed_value ::
  "pyenv \<Rightarrow> WorkflowEngine \<Rightarrow> string \<Rightarrow> string \<Rightarrow> string \<Rightarrow> jv option" where
  "passed_value py eng execution_id node k =
     (case engine_after_task py eng execution_id of
        None \<Rightarrow> None
      | Some eng' \<Rightarrow> (case map_of (calls eng') node of None \<Rightarrow> None | Some ni \<Rightarrow> map_of ni k))"

text \<open>The value under a key of a node's output in the record's output, after the task.\<close>

definition recorded_value ::
  "pyenv \<Rightarrow> WorkflowEngine \<Rightarrow> string \<Rightarrow> string \<Rightarrow> string \<Rightarrow> jv option" where
  "recorded_value py eng execution_id node k =
     (case record_after_task py eng execution_id of
        None \<Rightarrow> None
      | Some r \<Rightarrow>
          (case exec_output r of
             None \<Rightarrow> None
           | Some out \<Rightarrow>
               (case map_of (out_node_outputs out) node of
                  None \<Rightarrow> None
                | Some d \<Rightarrow> map_of d k)))"

text \<open>The completed nodes in the record's output, after the task.\<close>

definition completed_after_task :: "pyenv \<Rightarrow> WorkflowEngine \<Rightarrow> string \<Rightarrow> string set option" where
  "completed_after_task py eng execution_id =
     (case record_after_task py eng execution_id of
        None \<Rightarrow> None
      | Some r \<Rightarrow> map_option out_completed_nodes (exec_output r))"

text \<open>The stored node outputs of the execution state, after the task.\<close>

definition state_outputs_after_task ::
  "pyenv \<Rightarrow> WorkflowEngine \<Rightarrow> string \<Rightarrow> (string \<times> jdict) list option" where
  "state_outputs_after_task py eng execution_id =
     (case engine_after_task py eng execution_id of
        None \<Rightarrow> None
      | Some eng' \<Rightarrow> map_option state_node_outputs (running_executions eng' execution_id))"

text \<open>A fresh engine with one execution, just submitted under the id \<open>e1\<close>.\<close>

definition submit :: "WorkflowDefinition \<Rightarrow> jdict \<Rightarrow> WorkflowEngine" where
  "submit d input_data =
     snd (execute_workflow test_py (new_engine test_py 0) (mk_workflow d) input_data ''e1'')"

text \<open>The same for the chain, on an engine whose agent executor fails.\<close>

definition failing_engine :: WorkflowEngine where
  "failing_engine =
     snd (execute_workflow test_py
            ((new_engine test_py 0)
               \<lparr>executors := (builtin_executors test_py)(''agent'' \<mapsto> failing_agent)\<rparr>)
            (mk_workflow (chain_definition [] [] [] [])) [] ''e1'')"

section \<open>Properties of definitions and registries\<close>

definition node_ids :: "WorkflowDefinition \<Rightarrow> string set" where
  "node_ids d = set (map node_id (nodes d))"

text \<open>The targets of the edges that leave a node, in the order of the edge list.\<close>

definition successors :: "WorkflowDefinition \<Rightarrow> string \<Rightarrow> string list" where
  "successors d n = [to_node edge. edge \<leftarrow> edges d, from_node edge = n]"

text \<open>Every edge joins two declared nodes.\<close>

definition closed_edges :: "WorkflowDefinition \<Rightarrow> bool" where
  "closed_edges d =
     list_all (\<lambda>edge. from_node edge \<in> node_ids d \<and> to_node edge \<in> node_ids d) (edges d)"

text \<open>Every node has one of the five types of the built-in registry.\<close>

definition known_types :: "WorkflowDefinition \<Rightarrow> bool" where
  "known_types d =
     list_all (\<lambda>node. node_type node \<in>
                 {''trigger'', ''connector'', ''agent'', ''action'', ''condition''}) (nodes d)"

text \<open>The values \<open>len\<close> accepts.\<close>

definition has_len :: "jv \<Rightarrow> bool" where
  "has_len v = (case py_len v of Inl e \<Rightarrow> False | Inr n \<Rightarrow> True)"

text \<open>
  The executors of a registry return dicts: in the association list of an output no key
  occurs twice.
\<close>

definition returns_dicts :: "(string \<rightharpoonup> executor) \<Rightarrow> bool" where
  "returns_dicts exs =
     (\<forall>ty ex node i t out. exs ty = Some ex \<longrightarrow> ex node i t = Inr out \<longrightarrow> distinct (map fst out))"

text \<open>A queued node that the loop puts back: not completed, and a dependency is missing.\<close>

definition blocked :: "WorkflowDefinition \<Rightarrow> string set \<Rightarrow> string \<Rightarrow> bool" where
  "blocked d done n =
     (n \<notin> done \<and> \<not> list_all (\<lambda>dep. dep \<in> done) (dependencies d n))"

text \<open>
  What every iteration of the loop keeps, for any definition: completed nodes are declared
  nodes, they are the nodes that have an output and the nodes whose executor has been
  called, each once; an entry node, and the target of an edge leaving a completed node,
  is completed or waits in the queue.
\<close>

definition sched_inv :: "WorkflowDefinition \<Rightarrow> LoopState \<Rightarrow> bool" where
  "sched_inv d s =
     (completed_nodes s \<subseteq> node_ids d \<and>
      fst ` set (node_outputs s) = completed_nodes s \<and>
      set (map fst (ncalls s)) = completed_nodes s \<and>
      distinct (map fst (ncalls s)) \<and>
      (\<forall>n \<in> node_ids d. n \<notin> incoming_edges d \<longrightarrow>
         n \<in> completed_nodes s \<or> n \<in> set (execution_queue s)) \<and>
      (\<forall>edge \<in> set (edges d). from_node edge \<in> completed_nodes s \<longrightarrow>
         to_node edge \<in> completed_nodes s \<or> to_node edge \<in> set (execution_queue s)))"

text \<open>
  The inputs logged so far: each was built from the execution's input and the outputs of
  the node's dependencies, all of them completed and with duplicate-free outputs.
\<close>

definition inputs_inv :: "WorkflowDefinition \<Rightarrow> jdict \<Rightarrow> LoopState \<Rightarrow> bool" where
  "inputs_inv d i s =
     ((\<forall>(n, out) \<in> set (node_outputs s). distinct (map fst out)) \<and>
      (\<forall>(c, ni) \<in> set (ncalls s).
         set (dependencies d c) \<subseteq> fst ` set (node_outputs s) \<and>
         ni = node_input_of i (dependencies d c) (node_outputs s)))"

text \<open>No output recorded so far has the key \<open>data\<close>.\<close>

definition nodata_inv :: "LoopState \<Rightarrow> bool" where
  "nodata_inv s = (\<forall>(n, out) \<in> set (node_outputs s). map_of out ''data'' = None)"




section \<open>Unfolding sets\<close>

lemmas engine_defs = execute_workflow_def cancel_execution_def new_engine_def get_execution_def

lemmas task_defs = record_after_task_def engine_after_task_def execute_workflow_async_def

lemmas fixture_defs = test_py_def mk_workflow_def mk_node_def mk_edge_def

lemmas run_defs = while_queue.simps loop_body_def entry_nodes_def incoming_edges_def
  dependencies_def nodes_by_id_def edges_by_from_def node_input_of_def init_loop_def

lemmas loop_defs = run_defs dict_update_def dict_get_def

lemmas builtin_defs = builtin_executors_def TriggerExecutor_def ConnectorExecutor_def
  AgentExecutor_def ActionExecutor_def ConditionExecutor_def

lemmas obs_defs = passed_value_def recorded_value_def completed_after_task_def
  called_after_task_def state_outputs_after_task_def submit_def

section \<open>Submission\<close>

text \<open>
  C1 (as the specification states it, refuted). The definition with the cycle \<open>a \<rightarrow> b \<rightarrow> a\<close>
  is not rejected: \<open>execute_workflow\<close> returns the id, the record exists with status
  RUNNING and the background task has been created.
\<close>

theorem execute_workflow_cyclic_counterexample:
  "\<not> acyclic (edge_rel cyclic_definition) \<and>
   fst (execute_workflow test_py (new_engine test_py 0) (mk_workflow cyclic_definition) [] ''e1'')
     = ''e1'' \<and>
   map_option status
     (get_execution
        (snd (execute_workflow test_py (new_engine test_py 0) (mk_workflow cyclic_definition) [] ''e1''))
        ''e1'')
     = Some RUNNING \<and>
   tasks (snd (execute_workflow test_py (new_engine test_py 0) (mk_workflow cyclic_definition) [] ''e1''))
     = [''e1'']"
proof -
  have "(''a'', ''b'') \<in> edge_rel cyclic_definition" "(''b'', ''a'') \<in> edge_rel cyclic_definition"
    by (simp_all add: edge_rel_def cyclic_definition_def mk_edge_def)
  then have "(''a'', ''a'') \<in> (edge_rel cyclic_definition)\<^sup>+"
    by (meson trancl.intros)
  then have "\<not> acyclic (edge_rel cyclic_definition)"
    by (auto simp: acyclic_def)
  then show ?thesis
    by (simp add: engine_defs)
qed

text \<open>
  C1 (amended). \<open>execute_workflow\<close> validates nothing: for every workflow, cyclic or not,
  it returns the execution id, stores a record with status RUNNING and the given input, and
  creates the background task.
\<close>

theorem execute_workflow_always_starts:
  "fst (execute_workflow py eng wfl input_data execution_id) = execution_id \<and>
   get_execution (snd (execute_workflow py eng wfl input_data execution_id)) execution_id =
     Some \<lparr>exec_id = execution_id, workflow_id = wf_id wfl, status = RUNNING,
           input = Some input_data, exec_output = None, error = None,
           started_at = Some (utcnow py (ticks eng)), completed_at = None,
           executed_by = None\<rparr> \<and>
   tasks (snd (execute_workflow py eng wfl input_data execution_id)) = tasks eng @ [execution_id]"
  by (simp add: engine_defs)

text \<open>
  The background task of the cyclic definition finds no entry node, runs no node and
  reports SUCCESS.
\<close>

lemma cyclic_definition_run:
  "map_option status
     (record_after_task test_py
        (snd (execute_workflow test_py (new_engine test_py 0) (mk_workflow cyclic_definition) [] ''e1''))
        ''e1'')
     = Some SUCCESS"
  by (simp add: engine_defs task_defs fixture_defs loop_defs cyclic_definition_def)

section \<open>Cancellation\<close>

text \<open>
  C9. For an execution id that is not in \<open>running_executions\<close>, \<open>cancel_execution\<close>
  returns \<open>False\<close>, raises nothing and leaves the engine, with every stored record, as
  it was.
\<close>

theorem cancel_unknown_id:
  "execution_id \<notin> dom (running_executions eng) \<Longrightarrow>
     cancel_execution py eng execution_id = (False, eng)"
  by (auto simp: cancel_execution_def split: option.splits)

text \<open>An id that the engine has never stored.\<close>

theorem cancel_unknown_id_witness:
  "''nope'' \<notin> dom (running_executions submitted_engine) \<and>
   cancel_execution test_py submitted_engine ''nope'' = (False, submitted_engine)"
proof -
  have h: "''nope'' \<notin> dom (running_executions submitted_engine)"
    by (simp add: submitted_engine_def execute_workflow_def new_engine_def)
  show ?thesis
    using h cancel_unknown_id [OF h, of test_py] by simp
qed

text \<open>
  C4 (as the specification states it, refuted). Cancelling a RUNNING execution succeeds,
  but the error text written is \<open>Execution cancelled by user\<close>, not
  \<open>cancelled by caller\<close>.
\<close>

theorem cancel_error_text_counterexample:
  "map_option status (get_execution submitted_engine ''e1'') = Some RUNNING \<and>
   fst (cancel_execution test_py submitted_engine ''e1'') = True \<and>
   map_option error (get_execution (snd (cancel_execution test_py submitted_engine ''e1'')) ''e1'')
     = Some (Some ''Execution cancelled by user'') \<and>
   map_option error (get_execution (snd (cancel_execution test_py submitted_engine ''e1'')) ''e1'')
     \<noteq> Some (Some ''cancelled by caller'')"
  by (simp add: submitted_engine_def engine_defs)

text \<open>
  C4 (amended). For a stored execution whose status is PENDING or RUNNING,
  \<open>cancel_execution\<close> returns \<open>True\<close> and the record becomes the old one with status
  CANCELLED, error \<open>Execution cancelled by user\<close> and \<open>completed_at\<close> stamped with the
  current time. For a stored execution whose status is SUCCESS, FAILED or CANCELLED it
  returns \<open>False\<close> (the failure value of this code) and the engine is unchanged.
\<close>

theorem cancel_execution_effect:
  assumes "running_executions eng execution_id = Some st"
  shows "(status (execution st) \<in> {PENDING, RUNNING} \<longrightarrow>
            fst (cancel_execution py eng execution_id) = True \<and>
            get_execution (snd (cancel_execution py eng execution_id)) execution_id =
              Some ((execution st)\<lparr>status := CANCELLED,
                                     error := Some ''Execution cancelled by user'',
                                     completed_at := Some (utcnow py (ticks eng))\<rparr>)) \<and>
         (status (execution st) \<in> {SUCCESS, FAILED, CANCELLED} \<longrightarrow>
            cancel_execution py eng execution_id = (False, eng))"
  using assms
  by (cases "status (execution st)") (simp_all add: cancel_execution_def get_execution_def)

text \<open>The submitted execution is RUNNING and is cancelled; cancelling it again is refused and changes nothing.\<close>

theorem cancel_execution_effect_witness:
  "(\<exists>st. running_executions submitted_engine ''e1'' = Some st \<and>
         status (execution st) \<in> {PENDING, RUNNING}) \<and>
   fst (cancel_execution test_py submitted_engine ''e1'') = True \<and>
   map_option status (get_execution (snd (cancel_execution test_py submitted_engine ''e1'')) ''e1'')
     = Some CANCELLED \<and>
   (\<exists>st. running_executions (snd (cancel_execution test_py submitted_engine ''e1'')) ''e1'' = Some st \<and>
         status (execution st) \<in> {SUCCESS, FAILED, CANCELLED}) \<and>
   cancel_execution test_py (snd (cancel_execution test_py submitted_engine ''e1'')) ''e1''
     = (False, snd (cancel_execution test_py submitted_engine ''e1''))"
proof -
  obtain st where st: "running_executions submitted_engine ''e1'' = Some st"
    and run: "status (execution st) \<in> {PENDING, RUNNING}"
    by (simp add: submitted_engine_def engine_defs)
  let ?eng = "snd (cancel_execution test_py submitted_engine ''e1'')"
  obtain st' where st': "running_executions ?eng ''e1'' = Some st'"
    and fin: "status (execution st') \<in> {SUCCESS, FAILED, CANCELLED}"
    by (simp add: submitted_engine_def engine_defs)
  from cancel_execution_effect [OF st, of test_py] run
  have a: "fst (cancel_execution test_py submitted_engine ''e1'') = True"
    and b': "get_execution ?eng ''e1'' =
              Some ((execution st)\<lparr>status := CANCELLED,
                                     error := Some ''Execution cancelled by user'',
                                     completed_at := Some (utcnow test_py (ticks submitted_engine))\<rparr>)"
    by blast+
  from b' have b: "map_option status (get_execution ?eng ''e1'') = Some CANCELLED"
    by simp
  from cancel_execution_effect [OF st', of test_py] fin
  have c: "cancel_execution test_py ?eng ''e1'' = (False, ?eng)"
    by blast
  from st run st' fin a b c show ?thesis
    by blast
qed

text \<open>
  The route \<open>cancel_execution\<close> of \<open>routes/executions.py\<close> does the same on its own table:
  the same error text, and an HTTP 400 for a record that is neither pending nor running.
\<close>

lemma route_cancel_execution_effect:
  assumes "executions_db execution_id = Some execn"
  shows "(status execn \<in> {PENDING, RUNNING} \<longrightarrow>
            snd (route_cancel_execution executions_db execution_id t) =
              executions_db(execution_id \<mapsto>
                 execn\<lparr>status := CANCELLED, completed_at := Some t,
                       error := Some ''Execution cancelled by user''\<rparr>)) \<and>
         (status execn \<in> {SUCCESS, FAILED, CANCELLED} \<longrightarrow>
            route_cancel_execution executions_db execution_id t =
              (Inl (HTTPException 400 ''Cannot cancel execution that is not pending or running''),
               executions_db))"
  using assms
  by (cases "status execn") (simp_all add: route_cancel_execution_def)

text \<open>
  C2 (the code at the failing input). An execution is submitted and cancelled before its
  background task has run: \<open>cancel_execution\<close> returns \<open>True\<close> and the status is CANCELLED.
  The task then runs and writes SUCCESS over it.
\<close>

theorem cancel_then_task_overwrites:
  "fst (cancel_execution test_py submitted_engine ''e1'') = True \<and>
   map_option status (get_execution (snd (cancel_execution test_py submitted_engine ''e1'')) ''e1'')
     = Some CANCELLED \<and>
   map_option status
     (record_after_task test_py (snd (cancel_execution test_py submitted_engine ''e1'')) ''e1'')
     = Some SUCCESS"
  by (simp add: submitted_engine_def engine_defs task_defs fixture_defs loop_defs
      single_definition_def builtin_executors_def TriggerExecutor_def Let_def)

section \<open>Runs of concrete workflows\<close>

text \<open>
  C7. The chain trigger, connector, agent, action without edge conditions, with any
  configs, any input and any registered executors for the four types: when the four calls
  of \<open>execute\<close> succeed, the run ends with status SUCCESS, the node outputs in the record's
  output are exactly the four entries keyed trigger, connector, agent and action, and
  \<open>completed_at\<close> is set and not before \<open>started_at\<close> (the clock does not run backwards).
\<close>

theorem chain_run_success:
  assumes reg: "executors eng ''trigger'' = Some ex_t" "executors eng ''connector'' = Some ex_c"
      "executors eng ''agent'' = Some ex_a" "executors eng ''action'' = Some ex_x"
    and def: "wf_definition wfl = chain_definition ct cc ca cx"
    and ok:
      "ex_t (mk_node ''trigger'' ''trigger'' ct) input_data (utcnow py (ticks eng + 1)) = Inr o_t"
      "ex_c (mk_node ''connector'' ''connector'' cc) (dict_update input_data o_t)
         (utcnow py (ticks eng + 2)) = Inr o_c"
      "ex_a (mk_node ''agent'' ''agent'' ca) (dict_update input_data o_c)
         (utcnow py (ticks eng + 3)) = Inr o_a"
      "ex_x (mk_node ''action'' ''action'' cx) (dict_update input_data o_a)
         (utcnow py (ticks eng + 4)) = Inr o_x"
    and clock: "mono (utcnow py)"
  shows "\<exists>r out ts tc.
           record_after_task py (snd (execute_workflow py eng wfl input_data execution_id))
             execution_id = Some r \<and>
           status r = SUCCESS \<and> exec_output r = Some out \<and>
           out_node_outputs out =
             [(''trigger'', o_t), (''connector'', o_c), (''agent'', o_a), (''action'', o_x)] \<and>
           out_completed_nodes out = {''trigger'', ''connector'', ''agent'', ''action''} \<and>
           started_at r = Some ts \<and> completed_at r = Some tc \<and> ts \<le> tc"
proof -
  have le: "utcnow py (ticks eng) \<le> utcnow py (Suc (Suc (Suc (Suc (Suc (ticks eng))))))"
    using clock by (simp add: monoD)
  from ok have ok':
    "ex_t \<lparr>node_id = ''trigger'', node_type = ''trigger'', config = ct\<rparr> input_data
       (utcnow py (Suc (ticks eng))) = Inr o_t"
    "ex_c \<lparr>node_id = ''connector'', node_type = ''connector'', config = cc\<rparr>
       (dict_update input_data o_t) (utcnow py (Suc (Suc (ticks eng)))) = Inr o_c"
    "ex_a \<lparr>node_id = ''agent'', node_type = ''agent'', config = ca\<rparr>
       (dict_update input_data o_c) (utcnow py (Suc (Suc (Suc (ticks eng))))) = Inr o_a"
    "ex_x \<lparr>node_id = ''action'', node_type = ''action'', config = cx\<rparr>
       (dict_update input_data o_a) (utcnow py (Suc (Suc (Suc (Suc (ticks eng)))))) = Inr o_x"
    by (simp_all add: mk_node_def numeral_eq_Suc)
  show ?thesis
    using le
    by (simp add: execute_workflow_def get_execution_def task_defs def chain_definition_def
        mk_node_def mk_edge_def run_defs reg ok' insert_commute)
qed

text \<open>The chain on the built-in executors, with empty configs and the empty input.\<close>

theorem chain_run_success_witness:
  "mono (utcnow test_py) \<and>
   (\<exists>o_t o_c o_a o_x r out ts tc.
      TriggerExecutor test_py (mk_node ''trigger'' ''trigger'' []) []
        (utcnow test_py (ticks (new_engine test_py 0) + 1)) = Inr o_t \<and>
      ConnectorExecutor test_py (mk_node ''connector'' ''connector'' []) (dict_update [] o_t)
        (utcnow test_py (ticks (new_engine test_py 0) + 2)) = Inr o_c \<and>
      AgentExecutor test_py (mk_node ''agent'' ''agent'' []) (dict_update [] o_c)
        (utcnow test_py (ticks (new_engine test_py 0) + 3)) = Inr o_a \<and>
      ActionExecutor test_py (mk_node ''action'' ''action'' []) (dict_update [] o_a)
        (utcnow test_py (ticks (new_engine test_py 0) + 4)) = Inr o_x \<and>
      record_after_task test_py
        (snd (execute_workflow test_py (new_engine test_py 0)
                (mk_workflow (chain_definition [] [] [] [])) [] ''e1'')) ''e1'' = Some r \<and>
      status r = SUCCESS \<and> exec_output r = Some out \<and>
      out_node_outputs out =
        [(''trigger'', o_t), (''connector'', o_c), (''agent'', o_a), (''action'', o_x)] \<and>
      out_completed_nodes out = {''trigger'', ''connector'', ''agent'', ''action''} \<and>
      started_at r = Some ts \<and> completed_at r = Some tc \<and> ts \<le> tc)"
proof -
  define eng where "eng = new_engine test_py 0"
  define ot where "ot = projr (TriggerExecutor test_py (mk_node ''trigger'' ''trigger'' []) []
    (utcnow test_py (ticks eng + 1)))"
  define oc where "oc = projr (ConnectorExecutor test_py (mk_node ''connector'' ''connector'' [])
    (dict_update [] ot) (utcnow test_py (ticks eng + 2)))"
  define oa where "oa = projr (AgentExecutor test_py (mk_node ''agent'' ''agent'' [])
    (dict_update [] oc) (utcnow test_py (ticks eng + 3)))"
  define ox where "ox = projr (ActionExecutor test_py (mk_node ''action'' ''action'' [])
    (dict_update [] oa) (utcnow test_py (ticks eng + 4)))"
  have reg: "executors eng ''trigger'' = Some (TriggerExecutor test_py)"
    "executors eng ''connector'' = Some (ConnectorExecutor test_py)"
    "executors eng ''agent'' = Some (AgentExecutor test_py)"
    "executors eng ''action'' = Some (ActionExecutor test_py)"
    by (simp_all add: eng_def new_engine_def builtin_executors_def)
  have d: "wf_definition (mk_workflow (chain_definition [] [] [] [])) = chain_definition [] [] [] []"
    by (simp add: mk_workflow_def)
  have t: "TriggerExecutor test_py (mk_node ''trigger'' ''trigger'' []) []
      (utcnow test_py (ticks eng + 1)) = Inr ot"
    unfolding ot_def by (simp add: TriggerExecutor_def mk_node_def dict_get_def)
  have c: "ConnectorExecutor test_py (mk_node ''connector'' ''connector'' []) (dict_update [] ot)
      (utcnow test_py (ticks eng + 2)) = Inr oc"
    unfolding oc_def by (simp add: ConnectorExecutor_def)
  have nodata: "map_of (dict_update [] oc) ''data'' = None"
    unfolding oc_def by (simp add: ConnectorExecutor_def dict_update_def)
  have a: "AgentExecutor test_py (mk_node ''agent'' ''agent'' []) (dict_update [] oc)
      (utcnow test_py (ticks eng + 3)) = Inr oa"
    unfolding oa_def by (simp add: AgentExecutor_def dict_get_def nodata)
  have x: "ActionExecutor test_py (mk_node ''action'' ''action'' []) (dict_update [] oa)
      (utcnow test_py (ticks eng + 4)) = Inr ox"
    unfolding ox_def by (simp add: ActionExecutor_def mk_node_def dict_get_def)
  have m: "mono (utcnow test_py)"
    by (simp add: test_py_def mono_def)
  note run = chain_run_success [OF reg d t c a x m, where execution_id = "''e1''"]
  from run obtain r out ts tc where fin:
    "record_after_task test_py
        (snd (execute_workflow test_py eng (mk_workflow (chain_definition [] [] [] [])) [] ''e1''))
        ''e1'' = Some r \<and>
      status r = SUCCESS \<and> exec_output r = Some out \<and>
      out_node_outputs out =
        [(''trigger'', ot), (''connector'', oc), (''agent'', oa), (''action'', ox)] \<and>
      out_completed_nodes out = {''trigger'', ''connector'', ''agent'', ''action''} \<and>
      started_at r = Some ts \<and> completed_at r = Some tc \<and> ts \<le> tc"
    by (elim exE)
  have "\<exists>o_t o_c o_a o_x r out ts tc.
      TriggerExecutor test_py (mk_node ''trigger'' ''trigger'' []) []
        (utcnow test_py (ticks eng + 1)) = Inr o_t \<and>
      ConnectorExecutor test_py (mk_node ''connector'' ''connector'' []) (dict_update [] o_t)
        (utcnow test_py (ticks eng + 2)) = Inr o_c \<and>
      AgentExecutor test_py (mk_node ''agent'' ''agent'' []) (dict_update [] o_c)
        (utcnow test_py (ticks eng + 3)) = Inr o_a \<and>
      ActionExecutor test_py (mk_node ''action'' ''action'' []) (dict_update [] o_a)
        (utcnow test_py (ticks eng + 4)) = Inr o_x \<and>
      record_after_task test_py
        (snd (execute_workflow test_py eng
                (mk_workflow (chain_definition [] [] [] [])) [] ''e1'')) ''e1'' = Some r \<and>
      status r = SUCCESS \<and> exec_output r = Some out \<and>
      out_node_outputs out =
        [(''trigger'', o_t), (''connector'', o_c), (''agent'', o_a), (''action'', o_x)] \<and>
      out_completed_nodes out = {''trigger'', ''connector'', ''agent'', ''action''} \<and>
      started_at r = Some ts \<and> completed_at r = Some tc \<and> ts \<le> tc"
    apply (rule exI [of _ ot], rule exI [of _ oc], rule exI [of _ oa], rule exI [of _ ox])
    apply (rule exI [of _ r], rule exI [of _ out], rule exI [of _ ts], rule exI [of _ tc])
    apply (rule conjI, rule t, rule conjI, rule c, rule conjI, rule a, rule conjI, rule x)
    apply (rule fin)
    done
  with m show ?thesis
    unfolding eng_def by (rule conjI)
qed

text \<open>
  The background task never writes the fields \<open>node_outputs\<close> and \<open>completed_nodes\<close> of
  the stored execution state: the loop fills local variables of the same names. So in the
  report of \<open>get_execution_status\<close> an execution submitted through \<open>execute_workflow\<close>
  has no completed node, also after a run that completed them all.
\<close>

lemma task_never_writes_state_outputs:
  assumes "running_executions eng execution_id = Some st"
    and "execute_workflow_async py eng execution_id = Some (Inr eng')"
  shows "\<exists>st'. running_executions eng' execution_id = Some st' \<and>
           state_node_outputs st' = state_node_outputs st \<and>
           state_completed_nodes st' = state_completed_nodes st"
  using assms
  by (auto simp: execute_workflow_async_def split: option.splits prod.splits)

lemma status_report_without_completed_nodes:
  assumes "execute_workflow_async py (snd (execute_workflow py eng wfl input_data execution_id))
             execution_id = Some (Inr eng')"
  shows "\<exists>report. get_execution_status py eng' execution_id = Inr report \<and>
           report_completed_nodes report = {}"
proof -
  let ?eng = "snd (execute_workflow py eng wfl input_data execution_id)"
  obtain st where st: "running_executions ?eng execution_id = Some st"
    and empty: "state_completed_nodes st = {}"
    by (simp add: execute_workflow_def)
  from task_never_writes_state_outputs [OF st assms] empty show ?thesis
    by (auto simp: get_execution_status_def)
qed

text \<open>
  C5 (the code at the failing input). The chain on an engine whose agent executor raises
  \<open>LLM unavailable\<close>: the run ends FAILED with that error text and \<open>completed_at\<close>
  stamped, and the action executor is not called. But no node output is recorded: the
  record's output stays unset and the stored \<open>node_outputs\<close> of the execution state is
  still empty.
\<close>

theorem failing_agent_run:
  "map_option status (record_after_task test_py failing_engine ''e1'') = Some FAILED \<and>
   map_option error (record_after_task test_py failing_engine ''e1'')
     = Some (Some ''LLM unavailable'') \<and>
   map_option completed_at (record_after_task test_py failing_engine ''e1'') = Some (Some 1003) \<and>
   called_after_task test_py failing_engine ''e1'' = Some [''trigger'', ''connector'', ''agent''] \<and>
   map_option exec_output (record_after_task test_py failing_engine ''e1'') = Some None \<and>
   state_outputs_after_task test_py failing_engine ''e1'' = Some []"
  by (simp add: failing_engine_def engine_defs task_defs obs_defs fixture_defs loop_defs
      chain_definition_def builtin_defs failing_agent_def Let_def)

text \<open>
  C3 (as the specification states it, refuted). \<open>C\<close> has exactly the predecessors \<open>A\<close> and
  \<open>B\<close>, the edge from \<open>B\<close> listed first. \<open>A\<close>'s output has \<open>trigger_type = schedule\<close>,
  \<open>B\<close>'s has \<open>trigger_type = webhook\<close>, and the input passed to \<open>C\<close> has \<open>A\<close>'s value:
  \<open>B\<close> does not win.
\<close>

theorem join_order_counterexample:
  "dependencies (join_definition [''B'', ''A'']) ''C'' = [''B'', ''A''] \<and>
   recorded_value test_py (submit (join_definition [''B'', ''A'']) []) ''e1'' ''A'' ''trigger_type''
     = Some (JStr ''schedule'') \<and>
   recorded_value test_py (submit (join_definition [''B'', ''A'']) []) ''e1'' ''B'' ''trigger_type''
     = Some (JStr ''webhook'') \<and>
   passed_value test_py (submit (join_definition [''B'', ''A'']) []) ''e1'' ''C'' ''trigger_type''
     = Some (JStr ''schedule'')"
  by (simp add: obs_defs engine_defs task_defs fixture_defs loop_defs join_definition_def
      builtin_defs Let_def)

text \<open>
  C6 (as the specification states it, refuted). The condition node \<open>check\<close> has the
  expression \<open>false\<close> and its only outgoing edge is guarded by \<open>false\<close>; still the executor
  reports \<open>result = True\<close>, and the downstream node \<open>after\<close> is executed and recorded as
  completed.
\<close>

theorem condition_false_counterexample:
  "called_after_task test_py (submit condition_definition []) ''e1'' = Some [''check'', ''after''] \<and>
   completed_after_task test_py (submit condition_definition []) ''e1''
     = Some {''check'', ''after''} \<and>
   recorded_value test_py (submit condition_definition []) ''e1'' ''check'' ''condition''
     = Some (JStr ''false'') \<and>
   recorded_value test_py (submit condition_definition []) ''e1'' ''check'' ''result''
     = Some (JBool True)"
  by (simp add: obs_defs engine_defs task_defs fixture_defs loop_defs condition_definition_def
      builtin_defs Let_def insert_commute)

text \<open>
  C10 (as the specification states it, refuted). One agent node, a known type and no
  edges, with the input \<open>{"data": 5}\<close>: the agent executor takes \<open>len\<close> of 5, raises, and
  the run ends FAILED.
\<close>

theorem agent_len_counterexample:
  "map_option status (record_after_task test_py (submit agent_definition [(''data'', JInt 5)]) ''e1'')
     = Some FAILED \<and>
   map_option error (record_after_task test_py (submit agent_definition [(''data'', JInt 5)]) ''e1'')
     = Some (Some ''object of type 'int' has no len()'')"
  by (simp add: obs_defs engine_defs task_defs fixture_defs loop_defs agent_definition_def
      builtin_defs Let_def)

section \<open>The scheduling loop: tables, cases, invariants\<close>

lemma concat_map_if: "concat (map (\<lambda>x. if P x then [f x] else []) xs) = map f (filter P xs)"
  by (induction xs) auto


lemma successors_filter:
  "successors d n = map to_node (filter (\<lambda>e. from_node e = n) (edges d))"
  by (simp add: successors_def concat_map_if)

lemma entry_nodes_filter:
  "entry_nodes d = map node_id (filter (\<lambda>node. node_id node \<notin> incoming_edges d) (nodes d))"
  by (simp add: entry_nodes_def concat_map_if)

lemma edges_by_from_fold:
  "fold (\<lambda>edge m. m(from_node edge \<mapsto>
              (case m (from_node edge) of None \<Rightarrow> [] | Some l \<Rightarrow> l) @ [edge])) es m k =
   (if filter (\<lambda>e. from_node e = k) es = [] then m k
    else Some ((case m k of None \<Rightarrow> [] | Some l \<Rightarrow> l) @ filter (\<lambda>e. from_node e = k) es))"
  by (induction es arbitrary: m) auto

lemma edges_by_from_targets:
  "(case edges_by_from (edges d) n of None \<Rightarrow> [] | Some es \<Rightarrow> map to_node es) = successors d n"
  by (simp add: edges_by_from_def edges_by_from_fold successors_filter)

lemma nodes_by_id_fold_None:
  "fold (\<lambda>node m. m(node_id node \<mapsto> node)) ns m k = None \<longleftrightarrow>
     m k = None \<and> k \<notin> node_id ` set ns"
  by (induction ns arbitrary: m) auto

lemma nodes_by_id_fold_Some:
  "fold (\<lambda>node m. m(node_id node \<mapsto> node)) ns m k = Some node \<Longrightarrow>
     m k = Some node \<or> (node \<in> set ns \<and> node_id node = k)"
proof (induction ns arbitrary: m)
  case Nil
  then show ?case by simp
next
  case (Cons a ns)
  from Cons.IH [of "m(node_id a \<mapsto> a)"] Cons.prems show ?case
    by (auto split: if_splits)
qed

lemma nodes_by_id_None: "nodes_by_id (nodes d) k = None \<longleftrightarrow> k \<notin> node_ids d"
  by (simp add: nodes_by_id_def nodes_by_id_fold_None node_ids_def)

lemma nodes_by_id_Some:
  "nodes_by_id (nodes d) k = Some node \<Longrightarrow> node \<in> set (nodes d) \<and> node_id node = k"
  using nodes_by_id_fold_Some [of "nodes d" Map.empty k node] by (simp add: nodes_by_id_def)



lemma successors_lookup:
  "successors d n = (case edges_by_from (edges d) n of None \<Rightarrow> [] | Some es \<Rightarrow> map to_node es)"
  by (simp add: edges_by_from_targets)

text \<open>The ways an iteration goes on: skip, put back, or run the node.\<close>

lemma loop_body_continue:
  assumes "execution_queue s = cur # rest" and "loop_body py exs d inp s = (None, s')"
  obtains
    (skip) "cur \<in> completed_nodes s" "s' = s\<lparr>execution_queue := rest\<rparr>"
  | (requeue) "blocked d (completed_nodes s) cur" "s' = s\<lparr>execution_queue := rest @ [cur]\<rparr>"
  | (run) node i ex out where
      "cur \<notin> completed_nodes s" "set (dependencies d cur) \<subseteq> completed_nodes s"
      "nodes_by_id (nodes d) cur = Some node" "inp = Some i" "exs (node_type node) = Some ex"
      "ex node (node_input_of i (dependencies d cur) (node_outputs s)) (utcnow py (nticks s)) = Inr out"
      "s' = s\<lparr>execution_queue := rest @ successors d cur,
               completed_nodes := insert cur (completed_nodes s),
               node_outputs := AList.update cur out (node_outputs s),
               current_node := Some cur,
               nticks := Suc (nticks s),
               ncalls := ncalls s @ [(cur, node_input_of i (dependencies d cur) (node_outputs s))]\<rparr>"
  using assms
  by (auto simp: loop_body_def Let_def blocked_def list_all_iff subset_eq successors_lookup
      split: if_splits option.splits sum.splits)

text \<open>The ways an iteration raises: before the executor is called, or in the call.\<close>

lemma loop_body_raise:
  assumes "execution_queue s = cur # rest" and "loop_body py exs d inp s = (Some e, s')"
  obtains
    (before) "cur \<notin> completed_nodes s" "set (dependencies d cur) \<subseteq> completed_nodes s"
      "nodes_by_id (nodes d) cur = None \<and> e = KeyError cur \<or>
       inp = None \<or>
       (\<exists>node. nodes_by_id (nodes d) cur = Some node \<and> exs (node_type node) = None)"
      "completed_nodes s' = completed_nodes s" "node_outputs s' = node_outputs s"
      "ncalls s' = ncalls s"
  | (raised) node i ex where
      "cur \<notin> completed_nodes s" "set (dependencies d cur) \<subseteq> completed_nodes s"
      "nodes_by_id (nodes d) cur = Some node" "inp = Some i" "exs (node_type node) = Some ex"
      "ex node (node_input_of i (dependencies d cur) (node_outputs s)) (utcnow py (nticks s)) = Inl e"
      "completed_nodes s' = completed_nodes s" "node_outputs s' = node_outputs s"
      "ncalls s' = ncalls s @ [(cur, node_input_of i (dependencies d cur) (node_outputs s))]"
  using assms
  by (auto simp: loop_body_def Let_def list_all_iff subset_eq
      split: if_splits option.splits sum.splits)

text \<open>Partial correctness of the loop: an invariant of the iterations holds at the exit.\<close>

lemma while_queue_invariant:
  assumes run: "while_queue py exs d inp s = Some (r, s')"
    and init: "I s"
    and step: "\<And>s s'. I s \<Longrightarrow> execution_queue s \<noteq> [] \<Longrightarrow>
                 loop_body py exs d inp s = (None, s') \<Longrightarrow> I s'"
  shows "(r = None \<and> execution_queue s' = [] \<and> I s') \<or>
         (\<exists>e s0. r = Some e \<and> I s0 \<and> execution_queue s0 \<noteq> [] \<and>
                 loop_body py exs d inp s0 = (Some e, s'))"
proof -
  let ?Q = "\<lambda>rs. (fst rs = None \<and> execution_queue (snd rs) = [] \<and> I (snd rs)) \<or>
         (\<exists>e s0. fst rs = Some e \<and> I s0 \<and> execution_queue s0 \<noteq> [] \<and>
                 loop_body py exs d inp s0 = (Some e, snd rs))"
  have "py' = py \<longrightarrow> exs' = exs \<longrightarrow> d' = d \<longrightarrow> inp' = inp \<longrightarrow> I s0 \<longrightarrow> ?Q rs"
    if "while_queue py' exs' d' inp' s0 = Some rs" for py' exs' d' inp' s0 rs
    using that
  proof (rule while_queue.raw_induct [rotated 1,
        where P = "\<lambda>py' exs' d' inp' s0 rs.
          py' = py \<longrightarrow> exs' = exs \<longrightarrow> d' = d \<longrightarrow> inp' = inp \<longrightarrow> I s0 \<longrightarrow> ?Q rs"], goal_cases)
    case (1 f py' exs' d' inp' s0 rs)
    show ?case
    proof (intro impI)
      assume eq: "py' = py" "exs' = exs" "d' = d" "inp' = inp" and inv: "I s0"
      show "?Q rs"
      proof (cases "execution_queue s0 = []")
        case True
        with 1(2) inv show ?thesis by auto
      next
        case False
        obtain r1 s1 where b: "loop_body py exs d inp s0 = (r1, s1)"
          by (cases "loop_body py exs d inp s0")
        show ?thesis
        proof (cases r1)
          case None
          with b False 1(2) eq have "f py exs d inp s1 = Some rs" by simp
          moreover from step [OF inv False] b None have "I s1" by simp
          ultimately show ?thesis using 1(1) by blast
        next
          case (Some e)
          with b False 1(2) eq have "rs = (Some e, s1)" by simp
          with b Some inv False show ?thesis by auto
        qed
      qed
    qed
  qed
  from this [OF run] init show ?thesis by simp
qed


lemma in_successors: "n \<in> set (successors d c) \<longleftrightarrow> (\<exists>edge \<in> set (edges d). from_node edge = c \<and> to_node edge = n)"
  by (auto simp: successors_filter)


lemma sched_inv_init: "sched_inv d (init_loop d cn k)"
  by (auto simp: sched_inv_def init_loop_def entry_nodes_filter node_ids_def)

lemma sched_inv_step:
  assumes inv: "sched_inv d s" and ne: "execution_queue s \<noteq> []"
    and body: "loop_body py exs d inp s = (None, s')"
  shows "sched_inv d s'"
proof -
  from ne obtain cur rest where q: "execution_queue s = cur # rest"
    by (cases "execution_queue s") auto
  from q body show ?thesis
  proof (cases rule: loop_body_continue)
    case skip
    with inv q show ?thesis
      by (auto simp: sched_inv_def)
  next
    case requeue
    with inv q show ?thesis
      by (auto simp: sched_inv_def)
  next
    case (run node i ex out)
    from run(3) have "cur \<in> node_ids d"
      using nodes_by_id_None [of d cur] by auto
    with inv q run(1) show ?thesis
      unfolding run(7)
      by (auto simp: sched_inv_def dom_update in_successors)
  qed
qed


lemma queue_subset_init: "set (execution_queue (init_loop d cn k)) \<subseteq> node_ids d"
  by (auto simp: init_loop_def entry_nodes_filter node_ids_def)

lemma queue_subset_step:
  assumes closed: "closed_edges d" and sub: "set (execution_queue s) \<subseteq> node_ids d"
    and ne: "execution_queue s \<noteq> []"
    and body: "loop_body py exs d inp s = (None, s')"
  shows "set (execution_queue s') \<subseteq> node_ids d"
proof -
  from ne obtain cur rest where q: "execution_queue s = cur # rest"
    by (cases "execution_queue s") auto
  from closed have succ: "set (successors d cur) \<subseteq> node_ids d"
    by (auto simp: closed_edges_def list_all_iff in_successors)
  from q body show ?thesis
    by (cases rule: loop_body_continue) (use sub q succ in auto)
qed



section \<open>Runs of any workflow\<close>

lemma while_queue_exit:
  assumes run: "while_queue py exs d inp (init_loop d cn k) = Some (r, s')"
  shows "distinct (map fst (ncalls s'))"
    and "r = None \<Longrightarrow> sched_inv d s' \<and> execution_queue s' = []"
proof -
  have "(r = None \<and> execution_queue s' = [] \<and> sched_inv d s') \<or>
         (\<exists>e s0. r = Some e \<and> sched_inv d s0 \<and> execution_queue s0 \<noteq> [] \<and>
                 loop_body py exs d inp s0 = (Some e, s'))"
    by (rule while_queue_invariant [where I = "sched_inv d", OF run sched_inv_init])
       (rule sched_inv_step, assumption+)
  then consider (finished) "r = None" "execution_queue s' = []" "sched_inv d s'"
    | (raise) e s0 where "r = Some e" "sched_inv d s0" "execution_queue s0 \<noteq> []"
        "loop_body py exs d inp s0 = (Some e, s')"
    by blast
  note cases = this
  show "distinct (map fst (ncalls s'))"
  proof (cases rule: cases)
    case finished
    then show ?thesis by (simp add: sched_inv_def)
  next
    case (raise e s0)
    from raise(3) obtain cur rest where q: "execution_queue s0 = cur # rest"
      by (cases "execution_queue s0") auto
    from q raise(4) show ?thesis
      by (cases rule: loop_body_raise) (use raise(2) in \<open>auto simp: sched_inv_def\<close>)
  qed
  show "sched_inv d s' \<and> execution_queue s' = []" if "r = None"
    using that by (cases rule: cases) auto
qed






text \<open>
  C6 (amended). The code evaluates no condition: the condition executor reports
  \<open>result = True\<close> for every configured expression, and the loop queues the target of
  every outgoing edge whatever its \<open>condition\<close>. So in every run that ends SUCCESS, the
  target of every edge that leaves a completed node is itself completed, and the completed
  nodes are the nodes whose executor was called; no node is skipped.
\<close>

theorem successors_of_completed_nodes_run:
  assumes st: "running_executions eng execution_id = Some st"
    and run: "execute_workflow_async py eng execution_id = Some (Inr eng')"
    and r: "get_execution eng' execution_id = Some r"
    and ok: "status r = SUCCESS"
  shows "\<exists>out cs. exec_output r = Some out \<and> calls eng' = calls eng @ cs \<and>
           set (map fst cs) = out_completed_nodes out \<and>
           (\<forall>edge \<in> set (edges (wf_definition (workflow st))).
              from_node edge \<in> out_completed_nodes out \<longrightarrow>
                to_node edge \<in> out_completed_nodes out) \<and>
           (\<forall>node i t. \<exists>out. ConditionExecutor py node i t = Inr out \<and>
              map_of out ''result'' = Some (JBool True))"
proof -
  let ?d = "wf_definition (workflow st)"
  let ?init = "init_loop ?d (state_current_node st) (ticks eng)"
  from run st obtain r0 s' where
    loop: "while_queue py (executors eng) ?d (input (execution st)) ?init = Some (r0, s')"
    by (auto simp: execute_workflow_async_def split: option.splits)
  have cond: "\<forall>node i t. \<exists>out. ConditionExecutor py node i t = Inr out \<and>
              map_of out ''result'' = Some (JBool True)"
    by (simp add: ConditionExecutor_def)
  show ?thesis
  proof (cases r0)
    case None
    with while_queue_exit(2) [OF loop] have inv: "sched_inv ?d s'"
      and empty: "execution_queue s' = []" by auto
    from inv empty have "\<forall>edge \<in> set (edges ?d).
        from_node edge \<in> completed_nodes s' \<longrightarrow> to_node edge \<in> completed_nodes s'"
      by (simp add: sched_inv_def)
    moreover from inv have "set (map fst (ncalls s')) = completed_nodes s'"
      by (simp add: sched_inv_def)
    ultimately show ?thesis
      using cond loop None st run r
      by (auto simp: execute_workflow_async_def get_execution_def)
  next
    case (Some e)
    with loop st run r ok show ?thesis
      by (auto simp: execute_workflow_async_def get_execution_def)
  qed
qed

text \<open>The condition workflow, evaluated: both nodes are called and the task ends with SUCCESS.\<close>

lemma condition_run_eval:
  "\<exists>eng' r. execute_workflow_async test_py (submit condition_definition []) ''e1'' = Some (Inr eng') \<and>
     get_execution eng' ''e1'' = Some r \<and> status r = SUCCESS \<and>
     map fst (calls eng') = [''check'', ''after'']"
  by (simp add: obs_defs engine_defs task_defs fixture_defs loop_defs condition_definition_def
      builtin_defs Let_def)

text \<open>The condition workflow: both nodes are called and both are completed.\<close>

theorem successors_of_completed_nodes_run_witness:
  "\<exists>st eng' r out cs.
     running_executions (submit condition_definition []) ''e1'' = Some st \<and>
     execute_workflow_async test_py (submit condition_definition []) ''e1'' = Some (Inr eng') \<and>
     get_execution eng' ''e1'' = Some r \<and> status r = SUCCESS \<and>
     exec_output r = Some out \<and>
     calls eng' = calls (submit condition_definition []) @ cs \<and>
     map fst cs = [''check'', ''after''] \<and>
     out_completed_nodes out = {''check'', ''after''}"
proof -
  let ?eng = "submit condition_definition []"
  define st where "st = the (running_executions ?eng ''e1'')"
  have st: "running_executions ?eng ''e1'' = Some st"
    and c0: "calls ?eng = []"
    by (simp_all add: st_def submit_def execute_workflow_def new_engine_def)
  from condition_run_eval obtain eng' r where
    run: "execute_workflow_async test_py ?eng ''e1'' = Some (Inr eng')"
    and r: "get_execution eng' ''e1'' = Some r" and ok: "status r = SUCCESS"
    and called: "map fst (calls eng') = [''check'', ''after'']"
    by (elim exE conjE) (rule that, assumption+)
  from successors_of_completed_nodes_run [OF st run r ok]
  obtain out cs where out: "exec_output r = Some out" and cs: "calls eng' = calls ?eng @ cs"
    and same: "set (map fst cs) = out_completed_nodes out"
    by (elim exE conjE) (rule that, assumption+)
  from cs c0 called have m: "map fst cs = [''check'', ''after'']"
    by simp
  with same have k: "out_completed_nodes out = {''check'', ''after''}"
    by simp
  show ?thesis
    by (rule exI [of _ st], rule exI [of _ eng'], rule exI [of _ r], rule exI [of _ out],
        rule exI [of _ cs]) (intro conjI st run r ok out cs m k)
qed

section \<open>A run that does not end\<close>

text \<open>
  A cycle that an entry node leads into: \<open>a\<close> runs, then \<open>b\<close> waits for \<open>c\<close> and \<open>c\<close> is
  never queued. Each iteration puts \<open>b\<close> back, the loop does not end, and the task writes
  no terminal status.
\<close>

lemma waiting_forever:
  assumes q: "execution_queue s = [''b'']" and c: "completed_nodes s = {''a''}"
  shows "while_queue py exs looping_definition inp s = None"
proof (rule ccontr)
  assume "while_queue py exs looping_definition inp s \<noteq> None"
  then obtain r s' where run: "while_queue py exs looping_definition inp s = Some (r, s')"
    by auto
  let ?I = "\<lambda>s. execution_queue s = [''b''] \<and> completed_nodes s = {''a''}"
  have deps: "dependencies looping_definition ''b'' = [''a'', ''c'']"
    by (simp add: dependencies_def looping_definition_def mk_edge_def)
  have body: "loop_body py exs looping_definition inp s0 = (None, s0\<lparr>execution_queue := [''b'']\<rparr>)"
    if "?I s0" for s0
    using that by (simp add: loop_body_def deps)
  have init: "?I s"
    using q c by simp
  have step: "?I s2" if "?I s1" "execution_queue s1 \<noteq> []"
    "loop_body py exs looping_definition inp s1 = (None, s2)" for s1 s2
  proof -
    from body [OF that(1)] that(3) have "s2 = s1\<lparr>execution_queue := [''b'']\<rparr>"
      by simp
    with that(1) show ?thesis
      by simp
  qed
  have "(r = None \<and> execution_queue s' = [] \<and> ?I s') \<or>
        (\<exists>e s0. r = Some e \<and> ?I s0 \<and> execution_queue s0 \<noteq> [] \<and>
                loop_body py exs looping_definition inp s0 = (Some e, s'))"
    by (rule while_queue_invariant [where I = ?I, OF run init]) (rule step, assumption+)
  then show False
  proof (elim disjE exE conjE)
    assume "execution_queue s' = []" "execution_queue s' = [''b'']"
    then show False by simp
  next
    fix e s0
    assume "execution_queue s0 = [''b'']" "completed_nodes s0 = {''a''}"
      and "loop_body py exs looping_definition inp s0 = (Some e, s')"
    with body [of s0] show False by simp
  qed
qed


lemma cyclic_run_never_ends:
  "execute_workflow_async test_py (submit looping_definition []) ''e1'' = None"
proof -
  let ?init = "init_loop looping_definition None (Suc 0)"
  have "\<exists>s1. loop_body test_py (builtin_executors test_py) looping_definition (Some []) ?init
               = (None, s1) \<and>
             execution_queue s1 = [''b''] \<and> completed_nodes s1 = {''a''}"
    by (simp add: loop_body_def entry_nodes_def incoming_edges_def dependencies_def
          nodes_by_id_def edges_by_from_def node_input_of_def init_loop_def looping_definition_def
          mk_node_def mk_edge_def builtin_executors_def TriggerExecutor_def dict_get_def Let_def)
  then obtain s1 where
    first: "loop_body test_py (builtin_executors test_py) looping_definition (Some []) ?init
              = (None, s1)"
    and s1: "execution_queue s1 = [''b'']" "completed_nodes s1 = {''a''}"
    by (elim exE conjE) (rule that, assumption+)
  have ne: "execution_queue ?init \<noteq> []"
    by (simp add: init_loop_def entry_nodes_def incoming_edges_def looping_definition_def
        mk_node_def mk_edge_def)
  have "while_queue test_py (builtin_executors test_py) looping_definition (Some []) ?init
        = while_queue test_py (builtin_executors test_py) looping_definition (Some []) s1"
    by (subst while_queue.simps) (simp only: ne first if_False prod.case option.case)
  also have "\<dots> = None"
    by (rule waiting_forever [OF s1])
  finally have "while_queue test_py (builtin_executors test_py) looping_definition (Some []) ?init
        = None" .
  then show ?thesis
    by (simp add: execute_workflow_async_def submit_def execute_workflow_def new_engine_def
        mk_workflow_def)
qed

section \<open>Runs on the built-in executors\<close>

lemma dict_update_other_key:
  "k \<notin> fst ` set other \<Longrightarrow> map_of (dict_update a other) k = map_of a k"
  unfolding dict_update_def
  by (induction other arbitrary: a) (auto simp: update_conv')

lemma node_input_of_other_key:
  assumes "\<forall>(n, out) \<in> set outs. map_of out k = None"
  shows "map_of (node_input_of i deps outs) k = map_of i k"
  unfolding node_input_of_def
proof (induction deps arbitrary: i)
  case Nil
  show ?case by simp
next
  case (Cons dep deps)
  show ?case
  proof (cases "map_of outs dep")
    case None
    with Cons show ?thesis by simp
  next
    case (Some out)
    then have "(dep, out) \<in> set outs"
      by (rule map_of_SomeD)
    with assms have "map_of out k = None" by auto
    then have "k \<notin> fst ` set out"
      by (simp add: map_of_eq_None_iff)
    then have "map_of (dict_update i out) k = map_of i k"
      by (rule dict_update_other_key)
    with Cons Some show ?thesis by simp
  qed
qed

lemma set_update_subset: "set (AList.update k v al) \<subseteq> insert (k, v) (set al)"
  by (induction al) auto

lemma builtin_executor_cases:
  assumes "builtin_executors py ty = Some ex"
  shows "ex = TriggerExecutor py \<or> ex = ConnectorExecutor py \<or> ex = AgentExecutor py \<or>
         ex = ActionExecutor py \<or> ex = ConditionExecutor py"
  using assms by (simp add: builtin_executors_def split: if_splits)

lemma builtin_output_without_data:
  assumes "builtin_executors py ty = Some ex" and "ex node i t = Inr out"
  shows "map_of out ''data'' = None"
proof -
  have "TriggerExecutor py node i t = Inr out \<Longrightarrow> map_of out ''data'' = None"
    by (auto simp: TriggerExecutor_def Let_def split: if_splits)
  moreover have "ConnectorExecutor py node i t = Inr out \<Longrightarrow> map_of out ''data'' = None"
    by (auto simp: ConnectorExecutor_def Let_def)
  moreover have "AgentExecutor py node i t = Inr out \<Longrightarrow> map_of out ''data'' = None"
    by (auto simp: AgentExecutor_def Let_def split: sum.splits)
  moreover have "ActionExecutor py node i t = Inr out \<Longrightarrow> map_of out ''data'' = None"
    by (auto simp: ActionExecutor_def Let_def split: if_splits)
  moreover have "ConditionExecutor py node i t = Inr out \<Longrightarrow> map_of out ''data'' = None"
    by (auto simp: ConditionExecutor_def Let_def)
  ultimately show ?thesis
    using builtin_executor_cases [OF assms(1)] assms(2) by blast
qed

lemma builtin_executor_succeeds:
  assumes "builtin_executors py ty = Some ex" and "has_len (dict_get i ''data'' (JList []))"
  shows "\<exists>out. ex node i t = Inr out"
proof -
  have "\<exists>out. TriggerExecutor py node i t = Inr out"
    by (simp add: TriggerExecutor_def Let_def)
  moreover have "\<exists>out. ConnectorExecutor py node i t = Inr out"
    by (simp add: ConnectorExecutor_def Let_def)
  moreover from assms(2) have "\<exists>out. AgentExecutor py node i t = Inr out"
    by (simp add: AgentExecutor_def Let_def has_len_def split: sum.splits)
  moreover have "\<exists>out. ActionExecutor py node i t = Inr out"
    by (simp add: ActionExecutor_def Let_def)
  moreover have "\<exists>out. ConditionExecutor py node i t = Inr out"
    by (simp add: ConditionExecutor_def Let_def)
  ultimately show ?thesis
    using builtin_executor_cases [OF assms(1)] by blast
qed

lemma builtin_executor_known:
  "ty \<in> {''trigger'', ''connector'', ''agent'', ''action'', ''condition''} \<Longrightarrow>
     \<exists>ex. builtin_executors py ty = Some ex"
  by (auto simp: builtin_executors_def)

lemma nodata_inv_step:
  assumes inv: "nodata_inv s" and ne: "execution_queue s \<noteq> []"
    and body: "loop_body py (builtin_executors py) d inp s = (None, s')"
  shows "nodata_inv s'"
proof -
  from ne obtain cur rest where q: "execution_queue s = cur # rest"
    by (cases "execution_queue s") auto
  from q body show ?thesis
  proof (cases rule: loop_body_continue)
    case skip
    with inv show ?thesis by (simp add: nodata_inv_def)
  next
    case requeue
    with inv show ?thesis by (simp add: nodata_inv_def)
  next
    case (run node i ex out)
    from builtin_output_without_data [OF run(5) run(6)] have "map_of out ''data'' = None" .
    with inv set_update_subset [of cur out "node_outputs s"] show ?thesis
      unfolding run(7) by (auto simp: nodata_inv_def)
  qed
qed

text \<open>
  C10 (amended). For a definition whose nodes all have one of the five known types and
  whose edges join declared nodes, run on the built-in executors with an input whose
  \<open>data\<close> entry, if there is one, is a string, a list or a dict: no executor raises and
  no other exception occurs, so when the background task ends it has written SUCCESS;
  the FAILED branch is not reached.
\<close>

theorem builtin_run_ends_in_success:
  assumes st: "running_executions eng execution_id = Some st"
    and d: "d = wf_definition (workflow st)"
    and reg: "executors eng = builtin_executors py"
    and known: "known_types d"
    and closed: "closed_edges d"
    and inp: "input (execution st) = Some i"
    and len: "has_len (dict_get i ''data'' (JList []))"
    and run: "execute_workflow_async py eng execution_id = Some res"
  shows "\<exists>eng' r. res = Inr eng' \<and> get_execution eng' execution_id = Some r \<and>
           status r = SUCCESS \<and> error r = error (execution st)"
proof -
  let ?init = "init_loop d (state_current_node st) (ticks eng)"
  let ?I = "\<lambda>s. set (execution_queue s) \<subseteq> node_ids d \<and> nodata_inv s"
  from run st obtain r0 s' where
    loop: "while_queue py (builtin_executors py) d (Some i) ?init = Some (r0, s')"
    by (auto simp: execute_workflow_async_def d reg inp split: option.splits)
  have init: "?I ?init"
    using queue_subset_init [of d] by (simp add: nodata_inv_def init_loop_def)
  have step: "?I s2" if "?I s1" "execution_queue s1 \<noteq> []"
    "loop_body py (builtin_executors py) d (Some i) s1 = (None, s2)" for s1 s2
  proof
    from that(1) have "set (execution_queue s1) \<subseteq> node_ids d" ..
    then show "set (execution_queue s2) \<subseteq> node_ids d"
      by (rule queue_subset_step [OF closed _ that(2) that(3)])
    from that(1) have "nodata_inv s1" ..
    then show "nodata_inv s2"
      by (rule nodata_inv_step [OF _ that(2) that(3)])
  qed
  have "(r0 = None \<and> execution_queue s' = [] \<and> ?I s') \<or>
        (\<exists>e s0. r0 = Some e \<and> ?I s0 \<and> execution_queue s0 \<noteq> [] \<and>
                loop_body py (builtin_executors py) d (Some i) s0 = (Some e, s'))"
    by (rule while_queue_invariant [where I = ?I, OF loop init]) (rule step, assumption+)
  then consider (finished) "r0 = None"
    | (raise) e s0 where "r0 = Some e" "?I s0" "execution_queue s0 \<noteq> []"
        "loop_body py (builtin_executors py) d (Some i) s0 = (Some e, s')"
    by blast
  then have "r0 = None"
  proof cases
    case finished
    then show ?thesis .
  next
    case (raise e s0)
    from raise(3) obtain cur rest where q: "execution_queue s0 = cur # rest"
      by (cases "execution_queue s0") auto
    with raise(2) have cur: "cur \<in> node_ids d" by simp
    from q raise(4) have False
    proof (cases rule: loop_body_raise)
      case before
      from before(3) show False
      proof (elim disjE conjE exE)
        assume "nodes_by_id (nodes d) cur = None"
        with cur show False by (simp add: nodes_by_id_None)
      next
        assume "Some i = None"
        then show False by simp
      next
        fix node assume n: "nodes_by_id (nodes d) cur = Some node"
          and none: "builtin_executors py (node_type node) = None"
        from nodes_by_id_Some [OF n] known
        have "node_type node \<in> {''trigger'', ''connector'', ''agent'', ''action'', ''condition''}"
          by (auto simp: known_types_def list_all_iff)
        from builtin_executor_known [OF this, of py] none show False by simp
      qed
    next
      case (raised node j ex)
      from raised(4) have j: "j = i" by simp
      from raise(2) have "\<forall>(n, out) \<in> set (node_outputs s0). map_of out ''data'' = None"
        by (simp add: nodata_inv_def)
      from node_input_of_other_key [OF this, of i "dependencies d cur"] len
      have "has_len (dict_get (node_input_of i (dependencies d cur) (node_outputs s0)) ''data'' (JList []))"
        by (simp add: dict_get_def)
      from builtin_executor_succeeds [OF raised(5) this, of node "utcnow py (nticks s0)"]
        raised(6) j show False
        by auto
    qed
    then show ?thesis ..
  qed
  with loop st run show ?thesis
    by (auto simp: execute_workflow_async_def get_execution_def d reg inp)
qed

section \<open>The input of a node\<close>

lemma dict_update_map_add:
  "distinct (map fst other) \<Longrightarrow> map_of (dict_update a other) = map_of a ++ map_of other"
  unfolding dict_update_def
proof (induction other arbitrary: a)
  case Nil
  show ?case by simp
next
  case (Cons p other)
  obtain k v where p: "p = (k, v)" by (cases p)
  from Cons.prems p have k: "k \<notin> dom (map_of other)" and dist: "distinct (map fst other)"
    by (auto simp: dom_map_of_conv_image_fst)
  have "map_of (fold (\<lambda>(k, v). AList.update k v) other (AList.update k v a))
        = map_of (AList.update k v a) ++ map_of other"
    by (rule Cons.IH [OF dist])
  also have "\<dots> = (map_of a)(k \<mapsto> v) ++ map_of other"
    by (simp only: update_conv')
  also have "\<dots> = (map_of a ++ map_of other)(k \<mapsto> v)"
    using k by (rule map_add_upd_left)
  also have "\<dots> = map_of a ++ map_of (p # other)"
    by (simp only: p map_of.simps fst_conv snd_conv map_add_upd)
  finally have "map_of (fold (\<lambda>(k, v). AList.update k v) other (AList.update k v a))
      = map_of a ++ map_of (p # other)" .
  moreover have "fold (\<lambda>(k, v). AList.update k v) (p # other) a
      = fold (\<lambda>(k, v). AList.update k v) other (AList.update k v a)"
    by (simp only: p fold_simps comp_apply case_prod_conv)
  ultimately show ?case
    by (simp only:)
qed

lemma node_input_of_merge:
  assumes "\<forall>(n, out) \<in> set outs. distinct (map fst out)"
  shows "set deps \<subseteq> fst ` set outs \<Longrightarrow>
         map_of (node_input_of i deps outs) =
           fold (\<lambda>dep m. m ++ map_of (the (map_of outs dep))) deps (map_of i)"
  unfolding node_input_of_def
proof (induction deps arbitrary: i)
  case Nil
  show ?case by simp
next
  case (Cons dep deps)
  from Cons.prems have "dep \<in> fst ` set outs" by simp
  then obtain out where out: "map_of outs dep = Some out"
    by (cases "map_of outs dep") (auto simp: map_of_eq_None_iff)
  then have "(dep, out) \<in> set outs" by (rule map_of_SomeD)
  with assms have "distinct (map fst out)" by auto
  then have "map_of (dict_update i out) = map_of i ++ map_of out"
    by (rule dict_update_map_add)
  with Cons out show ?case by simp
qed

lemma node_input_of_update_other:
  "cur \<notin> set deps \<Longrightarrow>
     node_input_of i deps (AList.update cur out outs) = node_input_of i deps outs"
  unfolding node_input_of_def
  by (induction deps arbitrary: i) (auto simp: update_conv')

lemma inputs_inv_init: "inputs_inv d i (init_loop d cn k)"
  by (simp add: inputs_inv_def init_loop_def)

lemma inputs_inv_step:
  assumes inv: "inputs_inv d i s" and sched: "sched_inv d s" and dicts: "returns_dicts exs"
    and ne: "execution_queue s \<noteq> []"
    and body: "loop_body py exs d (Some i) s = (None, s')"
  shows "inputs_inv d i s'"
proof -
  from ne obtain cur rest where q: "execution_queue s = cur # rest"
    by (cases "execution_queue s") auto
  from sched have dom: "fst ` set (node_outputs s) = completed_nodes s"
    by (simp add: sched_inv_def)
  from q body show ?thesis
  proof (cases rule: loop_body_continue)
    case skip
    with inv show ?thesis by (simp add: inputs_inv_def)
  next
    case requeue
    with inv show ?thesis by (simp add: inputs_inv_def)
  next
    case (run node j ex out)
    from run(4) have j: "j = i" by simp
    let ?outs = "AList.update cur out (node_outputs s)"
    from dicts run(5) run(6) have dout: "distinct (map fst out)"
      unfolding returns_dicts_def by blast
    have a: "\<forall>(n, o') \<in> set ?outs. distinct (map fst o')"
      using inv dout set_update_subset [of cur out "node_outputs s"]
      by (auto simp: inputs_inv_def)
    have keep: "set (dependencies d c) \<subseteq> fst ` set ?outs \<and>
                node_input_of i (dependencies d c) ?outs
                  = node_input_of i (dependencies d c) (node_outputs s)"
      if "set (dependencies d c) \<subseteq> fst ` set (node_outputs s)" for c
    proof -
      from that dom run(1) have "cur \<notin> set (dependencies d c)" by auto
      then have "node_input_of i (dependencies d c) ?outs
          = node_input_of i (dependencies d c) (node_outputs s)"
        by (rule node_input_of_update_other)
      with that show ?thesis by (auto simp: dom_update)
    qed
    have b: "\<forall>(c, ni) \<in> set (ncalls s @ [(cur, node_input_of i (dependencies d cur) (node_outputs s))]).
        set (dependencies d c) \<subseteq> fst ` set ?outs \<and>
        ni = node_input_of i (dependencies d c) ?outs"
    proof (clarify, goal_cases)
      case (1 c ni)
      then consider "(c, ni) \<in> set (ncalls s)"
        | "c = cur" "ni = node_input_of i (dependencies d cur) (node_outputs s)"
        by auto
      then show ?case
      proof cases
        case 1
        with inv have "set (dependencies d c) \<subseteq> fst ` set (node_outputs s)"
          and "ni = node_input_of i (dependencies d c) (node_outputs s)"
          by (auto simp: inputs_inv_def)
        with keep [of c] show ?thesis by simp
      next
        case 2
        from run(2) dom have "set (dependencies d cur) \<subseteq> fst ` set (node_outputs s)" by simp
        with keep [of cur] 2 show ?thesis by simp
      qed
    qed
    from a b show ?thesis
      unfolding run(7) j inputs_inv_def by simp
  qed
qed

lemma inputs_inv_exit:
  assumes dicts: "returns_dicts exs"
    and run: "while_queue py exs d (Some i) (init_loop d cn k) = Some (r, s')"
  shows "inputs_inv d i s'"
proof -
  let ?I = "\<lambda>s. sched_inv d s \<and> inputs_inv d i s"
  have init: "?I (init_loop d cn k)"
    by (simp add: sched_inv_init inputs_inv_init)
  have step: "?I s2" if "?I s1" "execution_queue s1 \<noteq> []"
    "loop_body py exs d (Some i) s1 = (None, s2)" for s1 s2
  proof
    from that(1) have s: "sched_inv d s1" and n: "inputs_inv d i s1" by simp_all
    show "sched_inv d s2"
      by (rule sched_inv_step [OF s that(2) that(3)])
    show "inputs_inv d i s2"
      by (rule inputs_inv_step [OF n s dicts that(2) that(3)])
  qed
  have "(r = None \<and> execution_queue s' = [] \<and> ?I s') \<or>
        (\<exists>e s0. r = Some e \<and> ?I s0 \<and> execution_queue s0 \<noteq> [] \<and>
                loop_body py exs d (Some i) s0 = (Some e, s'))"
    by (rule while_queue_invariant [where I = ?I, OF run init]) (rule step, assumption+)
  then consider (finished) "?I s'"
    | (raise) e s0 where "?I s0" "execution_queue s0 \<noteq> []"
        "loop_body py exs d (Some i) s0 = (Some e, s')"
    by blast
  then show ?thesis
  proof cases
    case finished
    then show ?thesis by simp
  next
    case (raise e s0)
    from raise(2) obtain cur rest where q: "execution_queue s0 = cur # rest"
      by (cases "execution_queue s0") auto
    from raise(1) have dom: "fst ` set (node_outputs s0) = completed_nodes s0"
      and inv: "inputs_inv d i s0"
      by (simp_all add: sched_inv_def)
    from q raise(3) show ?thesis
    proof (cases rule: loop_body_raise)
      case before
      with inv show ?thesis by (simp add: inputs_inv_def)
    next
      case (raised node j ex)
      with inv dom show ?thesis by (auto simp: inputs_inv_def)
    qed
  qed
qed

text \<open>
  C3 (amended). With executors that return dicts, the input passed to a node's executor is
  the execution's top-level input merged with the outputs of the node's direct
  predecessors in the order in which their edges into the node appear in the edge list
  (not in the order of the node ids): every
  predecessor has an output by then, the input contains every key of these outputs, and on
  a colliding key the predecessor whose edge is listed last wins. For \<open>C\<close> with exactly
  the predecessors \<open>A\<close> and \<open>B\<close>, \<open>B\<close>'s value wins when the edge from \<open>B\<close> is listed
  after the edge from \<open>A\<close>.
\<close>

theorem node_input_follows_edge_order:
  assumes dicts: "returns_dicts exs"
    and run: "while_queue py exs d (Some i) (init_loop d cn k) = Some (r, s)"
    and call: "(c, ni) \<in> set (ncalls s)"
  shows "set (dependencies d c) \<subseteq> fst ` set (node_outputs s) \<and>
         map_of ni =
           fold (\<lambda>dep m. m ++ map_of (the (map_of (node_outputs s) dep)))
             (dependencies d c) (map_of i)"
proof -
  from inputs_inv_exit [OF dicts run] have inv: "inputs_inv d i s" .
  with call have sub: "set (dependencies d c) \<subseteq> fst ` set (node_outputs s)"
    and ni: "ni = node_input_of i (dependencies d c) (node_outputs s)"
    by (auto simp: inputs_inv_def)
  from inv have "\<forall>(n, out) \<in> set (node_outputs s). distinct (map fst out)"
    by (simp add: inputs_inv_def)
  from node_input_of_merge [OF this sub, of i] ni sub show ?thesis
    by simp
qed

section \<open>Witnesses on the built-in executors\<close>

lemma builtin_returns_dicts: "returns_dicts (builtin_executors py)"
  unfolding returns_dicts_def
proof (intro allI impI)
  fix ty ex node i t out
  assume reg: "builtin_executors py ty = Some ex" and out: "ex node i t = Inr out"
  have "TriggerExecutor py node i t = Inr out \<Longrightarrow> distinct (map fst out)"
    by (auto simp: TriggerExecutor_def Let_def split: if_splits)
  moreover have "ConnectorExecutor py node i t = Inr out \<Longrightarrow> distinct (map fst out)"
    by (auto simp: ConnectorExecutor_def Let_def)
  moreover have "AgentExecutor py node i t = Inr out \<Longrightarrow> distinct (map fst out)"
    by (auto simp: AgentExecutor_def Let_def split: sum.splits)
  moreover have "ActionExecutor py node i t = Inr out \<Longrightarrow> distinct (map fst out)"
    by (auto simp: ActionExecutor_def Let_def split: if_splits)
  moreover have "ConditionExecutor py node i t = Inr out \<Longrightarrow> distinct (map fst out)"
    by (auto simp: ConditionExecutor_def Let_def)
  ultimately show "distinct (map fst out)"
    using builtin_executor_cases [OF reg] out by blast
qed

lemma join_run_eval:
  "\<exists>s ni. while_queue test_py (builtin_executors test_py) (join_definition [''A'', ''B''])
            (Some []) (init_loop (join_definition [''A'', ''B'']) None 1) = Some (None, s) \<and>
     (''C'', ni) \<in> set (ncalls s) \<and>
     map_of (the (map_of (node_outputs s) ''A'')) ''trigger_type'' = Some (JStr ''schedule'') \<and>
     map_of (the (map_of (node_outputs s) ''B'')) ''trigger_type'' = Some (JStr ''webhook'')"
  by (simp add: fixture_defs loop_defs join_definition_def builtin_defs Let_def)

text \<open>With the edge from \<open>A\<close> listed before the edge from \<open>B\<close>, the value of \<open>B\<close> wins.\<close>

theorem node_input_follows_edge_order_witness:
  "returns_dicts (builtin_executors test_py) \<and>
   dependencies (join_definition [''A'', ''B'']) ''C'' = [''A'', ''B''] \<and>
   (\<exists>s ni. while_queue test_py (builtin_executors test_py) (join_definition [''A'', ''B''])
              (Some []) (init_loop (join_definition [''A'', ''B'']) None 1) = Some (None, s) \<and>
      (''C'', ni) \<in> set (ncalls s) \<and>
      map_of (the (map_of (node_outputs s) ''A'')) ''trigger_type'' = Some (JStr ''schedule'') \<and>
      map_of (the (map_of (node_outputs s) ''B'')) ''trigger_type'' = Some (JStr ''webhook'') \<and>
      map_of ni = map_of [] ++ map_of (the (map_of (node_outputs s) ''A''))
                    ++ map_of (the (map_of (node_outputs s) ''B'')) \<and>
      map_of ni ''trigger_type'' = Some (JStr ''webhook''))"
proof -
  let ?d = "join_definition [''A'', ''B'']"
  have deps: "dependencies ?d ''C'' = [''A'', ''B'']"
    by (simp add: dependencies_def join_definition_def mk_edge_def)
  from join_run_eval obtain s ni where
    run: "while_queue test_py (builtin_executors test_py) ?d (Some []) (init_loop ?d None 1)
            = Some (None, s)"
    and call: "(''C'', ni) \<in> set (ncalls s)"
    and a: "map_of (the (map_of (node_outputs s) ''A'')) ''trigger_type'' = Some (JStr ''schedule'')"
    and b: "map_of (the (map_of (node_outputs s) ''B'')) ''trigger_type'' = Some (JStr ''webhook'')"
    by (elim exE conjE) (rule that, assumption+)
  from node_input_follows_edge_order [OF builtin_returns_dicts run call]
  have m: "map_of ni = map_of [] ++ map_of (the (map_of (node_outputs s) ''A''))
                    ++ map_of (the (map_of (node_outputs s) ''B''))"
    by (simp only: deps fold_simps comp_apply)
  have w: "map_of ni ''trigger_type'' = Some (JStr ''webhook'')"
    by (simp only: m map_add_Some_iff b) simp
  have "\<exists>s ni. while_queue test_py (builtin_executors test_py) ?d (Some []) (init_loop ?d None 1)
              = Some (None, s) \<and>
      (''C'', ni) \<in> set (ncalls s) \<and>
      map_of (the (map_of (node_outputs s) ''A'')) ''trigger_type'' = Some (JStr ''schedule'') \<and>
      map_of (the (map_of (node_outputs s) ''B'')) ''trigger_type'' = Some (JStr ''webhook'') \<and>
      map_of ni = map_of [] ++ map_of (the (map_of (node_outputs s) ''A''))
                    ++ map_of (the (map_of (node_outputs s) ''B'')) \<and>
      map_of ni ''trigger_type'' = Some (JStr ''webhook'')"
    by (rule exI [of _ s], rule exI [of _ ni]) (intro conjI run call a b m w)
  then show ?thesis
    by (intro conjI builtin_returns_dicts deps)
qed

lemma agent_definition_shape: "known_types agent_definition" "closed_edges agent_definition"
  by (simp_all add: known_types_def closed_edges_def agent_definition_def mk_node_def)

lemma agent_run_eval:
  "\<exists>res. execute_workflow_async test_py (submit agent_definition [(''data'', JStr ''abc'')]) ''e1''
     = Some res"
  by (simp add: obs_defs engine_defs task_defs fixture_defs loop_defs agent_definition_def
      builtin_defs Let_def)

text \<open>One agent node with the input \<open>{"data": "abc"}\<close>.\<close>

theorem builtin_run_ends_in_success_witness:
  "known_types agent_definition \<and> closed_edges agent_definition \<and>
   has_len (dict_get [(''data'', JStr ''abc'')] ''data'' (JList [])) \<and>
   (\<exists>eng' r. execute_workflow_async test_py (submit agent_definition [(''data'', JStr ''abc'')]) ''e1''
        = Some (Inr eng') \<and>
      get_execution eng' ''e1'' = Some r \<and> status r = SUCCESS)"
proof -
  let ?i = "[(''data'', JStr ''abc'')]"
  let ?eng = "submit agent_definition ?i"
  define st where "st = the (running_executions ?eng ''e1'')"
  have st: "running_executions ?eng ''e1'' = Some st"
    and d: "agent_definition = wf_definition (workflow st)"
    and reg: "executors ?eng = builtin_executors test_py"
    and inp: "input (execution st) = Some ?i"
    by (simp_all add: st_def submit_def execute_workflow_def mk_workflow_def new_engine_def)
  have len: "has_len (dict_get ?i ''data'' (JList []))"
    by (simp add: has_len_def dict_get_def)
  from agent_run_eval obtain res where
    run: "execute_workflow_async test_py ?eng ''e1'' = Some res" ..
  from builtin_run_ends_in_success [OF st d reg agent_definition_shape inp len run]
  obtain eng' r where "res = Inr eng'" and r: "get_execution eng' ''e1'' = Some r"
    and ok: "status r = SUCCESS"
    by (elim exE conjE) (rule that, assumption+)
  with run have run': "execute_workflow_async test_py ?eng ''e1'' = Some (Inr eng')"
    by simp
  have "\<exists>eng' r. execute_workflow_async test_py ?eng ''e1'' = Some (Inr eng') \<and>
      get_execution eng' ''e1'' = Some r \<and> status r = SUCCESS"
    by (rule exI [of _ eng'], rule exI [of _ r]) (intro conjI run' r ok)
  then show ?thesis
    by (intro conjI agent_definition_shape len)
qed

end
